theory Spec2Isabelle
  imports Main "HOL-Library.Word"
begin

unbundle bit_operations_syntax

text \<open>
  A shallow embedding of \<^verbatim>\<open>src/index.ts\<close> of botzy-2api, a proxy that offers the OpenAI
  chat-completions interface in front of one upstream chat service: the request adapter
  \<^verbatim>\<open>transformRequestToUpstream\<close>, the transform stream of
  \<^verbatim>\<open>createUpstreamToOpenAIStream\<close> (event frame reassembler and stream relay), the
  response aggregator \<^verbatim>\<open>transformNonStreamResponse\<close> and the handlers. The parts of
  the platform that the program calls (\<^verbatim>\<open>JSON.parse\<close>, \<^verbatim>\<open>TextDecoder\<close>, string methods,
  property access, truthiness) are modelled after their standards. The definitions come
  first, then the lemmas and the claims of the specification.
\<close>

section \<open>JavaScript strings\<close>

text \<open>
  A JavaScript string is a sequence of 16-bit code units; the chunks of a response body
  are sequences of bytes. String literals of \<^verbatim>\<open>src/index.ts\<close> are written with
  \<open>lit\<close>, which maps every character of an ASCII literal to its code unit.
\<close>

type_synonym code_unit = "16 word"
type_synonym jsstring = "code_unit list"
type_synonym byte = "8 word"

definition lit :: "string \<Rightarrow> jsstring" where
  "lit s = map of_char s"

definition bytes_of :: "string \<Rightarrow> byte list" where
  "bytes_of s = map of_char s"

definition NL :: code_unit where
  "NL = 0x0A"

text \<open>\<^verbatim>\<open>s.startsWith(p)\<close> and \<^verbatim>\<open>s.substring(n)\<close>.\<close>

definition startsWith :: "jsstring \<Rightarrow> jsstring \<Rightarrow> bool" where
  "startsWith s p = (take (length p) s = p)"

definition substring :: "nat \<Rightarrow> jsstring \<Rightarrow> jsstring" where
  "substring n s = drop n s"

text \<open>
  \<^verbatim>\<open>s.trim()\<close> removes the ECMAScript WhiteSpace and LineTerminator code units from
  both ends.
\<close>

definition is_js_space :: "code_unit \<Rightarrow> bool" where
  "is_js_space c =
     (c = 0x09 \<or> c = 0x0A \<or> c = 0x0B \<or> c = 0x0C \<or> c = 0x0D \<or> c = 0x20 \<or> c = 0xA0
      \<or> c = 0x1680 \<or> (0x2000 \<le> c \<and> c \<le> 0x200A) \<or> c = 0x2028 \<or> c = 0x2029
      \<or> c = 0x202F \<or> c = 0x205F \<or> c = 0x3000 \<or> c = 0xFEFF)"

definition trim :: "jsstring \<Rightarrow> jsstring" where
  "trim s = rev (dropWhile is_js_space (rev (dropWhile is_js_space s)))"

text \<open>
  \<^verbatim>\<open>s.split('\n')\<close>: the segments between newlines; always at least one segment, the
  last one being what follows the last newline. (The split of the rest is never empty,
  \<open>split_nl_nonempty\<close>, so the first branch of the inner case is never taken.)
\<close>

fun split_nl :: "jsstring \<Rightarrow> jsstring list" where
  "split_nl [] = [[]]"
| "split_nl (c # cs) =
     (if c = NL then [] # split_nl cs
      else (case split_nl cs of
              [] \<Rightarrow> [[c]]
            | l # ls \<Rightarrow> (c # l) # ls))"

text \<open>\<^verbatim>\<open>s.includes(p)\<close>.\<close>

fun includes_js :: "jsstring \<Rightarrow> jsstring \<Rightarrow> bool" where
  "includes_js [] p = (p = [])"
| "includes_js (c # cs) p = (startsWith (c # cs) p \<or> includes_js cs p)"

section \<open>JSON values and \<^verbatim>\<open>JSON.parse\<close>\<close>

text \<open>
  The values \<^verbatim>\<open>JSON.parse\<close> can return. A number keeps its literal as written: the
  program never computes with it, and what it does with a number (truthiness, conversion
  to a string) is IEEE-754 arithmetic of the platform, taken as a parameter below. An
  object keeps its members in source order; a later member with the same key wins.
\<close>

datatype json =
    JNull
  | JBool bool
  | JNumber jsstring
  | JString jsstring
  | JArray "json list"
  | JObject "(jsstring \<times> json) list"

datatype token =
    TLBrace | TRBrace | TLBracket | TRBracket | TColon | TComma
  | TString jsstring | TNumber jsstring | TTrue | TFalse | TNull

definition is_digit :: "code_unit \<Rightarrow> bool" where
  "is_digit c = (0x30 \<le> c \<and> c \<le> 0x39)"

definition hex_val :: "code_unit \<Rightarrow> code_unit option" where
  "hex_val c =
     (if 0x30 \<le> c \<and> c \<le> 0x39 then Some (c - 0x30)
      else if 0x41 \<le> c \<and> c \<le> 0x46 then Some (c - 0x37)
      else if 0x61 \<le> c \<and> c \<le> 0x66 then Some (c - 0x57)
      else None)"

text \<open>The single-character escapes of a JSON string: \<^verbatim>\<open>\" \\ \/ \b \f \n \r \t\<close>.\<close>

definition escape_val :: "code_unit \<Rightarrow> code_unit option" where
  "escape_val e =
     (if e = 0x22 \<or> e = 0x5C \<or> e = 0x2F then Some e
      else if e = 0x62 then Some 0x08
      else if e = 0x66 then Some 0x0C
      else if e = 0x6E then Some 0x0A
      else if e = 0x72 then Some 0x0D
      else if e = 0x74 then Some 0x09
      else None)"

definition cons_fst :: "'a \<Rightarrow> ('a list \<times> 'b) option \<Rightarrow> ('a list \<times> 'b) option" where
  "cons_fst x r = (case r of None \<Rightarrow> None | Some (xs, rest) \<Rightarrow> Some (x # xs, rest))"

text \<open>
  The characters of a string literal after its opening quote, up to the closing quote:
  the value of the string and the rest of the input. Control characters below U+0020
  and unknown escapes are syntax errors.
\<close>

fun lex_string :: "jsstring \<Rightarrow> (jsstring \<times> jsstring) option" where
  "lex_string [] = None"
| "lex_string (c # cs) =
     (if c = 0x22 then Some ([], cs)
      else if c = 0x5C then
        (case cs of
           [] \<Rightarrow> None
         | e # cs1 \<Rightarrow>
             if e = 0x75 then
               (case cs1 of
                  h1 # h2 # h3 # h4 # cs2 \<Rightarrow>
                    (case (hex_val h1, hex_val h2, hex_val h3, hex_val h4) of
                       (Some a, Some b, Some c, Some d) \<Rightarrow>
                         cons_fst (a * 0x1000 + b * 0x100 + c * 0x10 + d) (lex_string cs2)
                     | _ \<Rightarrow> None)
                | _ \<Rightarrow> None)
             else
               (case escape_val e of
                  None \<Rightarrow> None
                | Some x \<Rightarrow> cons_fst x (lex_string cs1)))
      else if c < 0x20 then None
      else cons_fst c (lex_string cs))"

text \<open>
  A number literal at the front of the input:
  \<^verbatim>\<open>-? (0 | [1-9][0-9]*) (. [0-9]+)? ([eE] [+-]? [0-9]+)?\<close>.
\<close>

definition lex_digits1 :: "jsstring \<Rightarrow> (jsstring \<times> jsstring) option" where
  "lex_digits1 cs =
     (if takeWhile is_digit cs = [] then None
      else Some (takeWhile is_digit cs, dropWhile is_digit cs))"

definition lex_int :: "jsstring \<Rightarrow> (jsstring \<times> jsstring) option" where
  "lex_int cs =
     (case cs of
        [] \<Rightarrow> None
      | d # cs1 \<Rightarrow>
          if d = 0x30 then Some ([d], cs1)
          else if is_digit d then Some (d # takeWhile is_digit cs1, dropWhile is_digit cs1)
          else None)"

definition lex_frac :: "jsstring \<Rightarrow> (jsstring \<times> jsstring) option" where
  "lex_frac cs =
     (case cs of
        [] \<Rightarrow> Some ([], cs)
      | d # cs1 \<Rightarrow>
          if d = 0x2E then cons_fst d (lex_digits1 cs1) else Some ([], cs))"

definition lex_exp :: "jsstring \<Rightarrow> (jsstring \<times> jsstring) option" where
  "lex_exp cs =
     (case cs of
        [] \<Rightarrow> Some ([], cs)
      | e # cs1 \<Rightarrow>
          if e = 0x65 \<or> e = 0x45 then
            (case cs1 of
               [] \<Rightarrow> None
             | s # cs2 \<Rightarrow>
                 if s = 0x2B \<or> s = 0x2D then cons_fst e (cons_fst s (lex_digits1 cs2))
                 else cons_fst e (lex_digits1 cs1))
          else Some ([], cs))"

definition lex_number :: "jsstring \<Rightarrow> (jsstring \<times> jsstring) option" where
  "lex_number cs =
     (let (sign, cs0) = (case cs of
                           [] \<Rightarrow> ([], cs)
                         | c # cs' \<Rightarrow> if c = 0x2D then ([c], cs') else ([], cs))
      in case lex_int cs0 of
           None \<Rightarrow> None
         | Some (i, cs1) \<Rightarrow>
             (case lex_frac cs1 of
                None \<Rightarrow> None
              | Some (f, cs2) \<Rightarrow>
                  (case lex_exp cs2 of
                     None \<Rightarrow> None
                   | Some (e, cs3) \<Rightarrow> Some (sign @ i @ f @ e, cs3))))"

definition cons_opt :: "'a \<Rightarrow> 'a list option \<Rightarrow> 'a list option" where
  "cons_opt x r = map_option ((#) x) r"

text \<open>
  The lexer: blanks are skipped, every other character starts a token. The input left
  after a string or a number is shorter than the input, which is why the recursion ends.
\<close>

function lex :: "jsstring \<Rightarrow> token list option" where
  "lex [] = Some []"
| "lex (c # cs) =
     (if c = 0x20 \<or> c = 0x09 \<or> c = 0x0A \<or> c = 0x0D then lex cs
      else if c = 0x7B then cons_opt TLBrace (lex cs)
      else if c = 0x7D then cons_opt TRBrace (lex cs)
      else if c = 0x5B then cons_opt TLBracket (lex cs)
      else if c = 0x5D then cons_opt TRBracket (lex cs)
      else if c = 0x3A then cons_opt TColon (lex cs)
      else if c = 0x2C then cons_opt TComma (lex cs)
      else if c = 0x22 then
        (case lex_string cs of
           None \<Rightarrow> None
         | Some (s, rest) \<Rightarrow> cons_opt (TString s) (lex rest))
      else if c = 0x2D \<or> is_digit c then
        (case lex_number (c # cs) of
           None \<Rightarrow> None
         | Some (num, rest) \<Rightarrow> cons_opt (TNumber num) (lex rest))
      else if startsWith (c # cs) (lit ''true'') then cons_opt TTrue (lex (drop 3 cs))
      else if startsWith (c # cs) (lit ''false'') then cons_opt TFalse (lex (drop 4 cs))
      else if startsWith (c # cs) (lit ''null'') then cons_opt TNull (lex (drop 3 cs))
      else None)"
  by pat_completeness auto
termination
proof (relation "measure length", goal_cases)
  case 1
  show ?case by simp
next
  case (9 c cs x2 s rest)
  have "lex_string xs = Some (a, r) \<Longrightarrow> length r \<le> length xs" for xs a r
  proof (induction "length xs" arbitrary: xs a r rule: less_induct)
    case less
    show ?case
    proof (cases xs)
      case Nil
      with less.prems show ?thesis by simp
    next
      case (Cons y ys)
      with less.prems show ?thesis
        by (auto simp: cons_fst_def split: if_splits list.splits option.splits prod.splits
                 dest!: less.hyps [rotated])
    qed
  qed
  from this [of cs s rest] 9 show ?case by simp
next
  case (10 c cs x2 num rest)
  have d: "lex_digits1 xs = Some (a, r) \<Longrightarrow> length r \<le> length xs" for xs a r
    by (auto simp: lex_digits1_def split: if_splits intro: length_dropWhile_le)
  have i: "lex_int xs = Some (a, r) \<Longrightarrow> length r < length xs" for xs a r
    by (auto simp: lex_int_def less_Suc_eq_le split: if_splits list.splits
             intro: length_dropWhile_le)
  have f: "lex_frac xs = Some (a, r) \<Longrightarrow> length r \<le> length xs" for xs a r
    by (auto simp: lex_frac_def cons_fst_def le_Suc_eq
             split: if_splits list.splits option.splits prod.splits dest!: d)
  have e: "lex_exp xs = Some (a, r) \<Longrightarrow> length r \<le> length xs" for xs a r
    by (auto simp: lex_exp_def cons_fst_def le_Suc_eq
             split: if_splits list.splits option.splits prod.splits dest!: d)
  have "lex_number xs = Some (a, r) \<Longrightarrow> length r < length xs" for xs a r
    by (fastforce simp: lex_number_def split: if_splits list.splits option.splits prod.splits
             dest!: i f e)
  from this [of "c # cs" num rest] 10 show ?case by simp
qed simp_all

text \<open>
  The parser is a stack machine over the tokens. A frame is an array or an object whose
  closing bracket has not been read yet, with what it holds so far (latest first).
\<close>

datatype frame =
    InArray "json list"
  | InObject "(jsstring \<times> json) list" jsstring

datatype pstate =
    PValue "frame list"
  | PFirst "frame list"
  | PKey0 "frame list"
  | PKey "(jsstring \<times> json) list" "frame list"
  | PColon "(jsstring \<times> json) list" jsstring "frame list"
  | PDone json "frame list"

text \<open>A token that starts a value, inside the frames \<open>fs\<close>.\<close>

definition value_start :: "token \<Rightarrow> frame list \<Rightarrow> pstate option" where
  "value_start t fs =
     (case t of
        TLBracket \<Rightarrow> Some (PFirst fs)
      | TLBrace \<Rightarrow> Some (PKey0 fs)
      | TString s \<Rightarrow> Some (PDone (JString s) fs)
      | TNumber n \<Rightarrow> Some (PDone (JNumber n) fs)
      | TTrue \<Rightarrow> Some (PDone (JBool True) fs)
      | TFalse \<Rightarrow> Some (PDone (JBool False) fs)
      | TNull \<Rightarrow> Some (PDone JNull fs)
      | _ \<Rightarrow> None)"

text \<open>
  One token. \<open>PValue\<close>: a value must start; \<open>PFirst\<close>: just after \<^verbatim>\<open>[\<close>, a value or
  \<^verbatim>\<open>]\<close>; \<open>PKey0\<close>: just after \<^verbatim>\<open>{\<close>, a key or \<^verbatim>\<open>}\<close>; \<open>PKey\<close>: after a comma in an
  object, a key; \<open>PColon\<close>: after a key, the colon; \<open>PDone\<close>: a value is complete, and a
  comma or the closing bracket of the innermost frame follows.
\<close>

definition parse_step :: "pstate \<Rightarrow> token \<Rightarrow> pstate option" where
  "parse_step st t =
     (case st of
        PValue fs \<Rightarrow> value_start t fs
      | PFirst fs \<Rightarrow>
          (case t of
             TRBracket \<Rightarrow> Some (PDone (JArray []) fs)
           | _ \<Rightarrow> value_start t (InArray [] # fs))
      | PKey0 fs \<Rightarrow>
          (case t of
             TRBrace \<Rightarrow> Some (PDone (JObject []) fs)
           | TString k \<Rightarrow> Some (PColon [] k fs)
           | _ \<Rightarrow> None)
      | PKey mem fs \<Rightarrow>
          (case t of
             TString k \<Rightarrow> Some (PColon mem k fs)
           | _ \<Rightarrow> None)
      | PColon mem k fs \<Rightarrow>
          (case t of
             TColon \<Rightarrow> Some (PValue (InObject mem k # fs))
           | _ \<Rightarrow> None)
      | PDone v fs \<Rightarrow>
          (case fs of
             [] \<Rightarrow> None
           | InArray acc # fs' \<Rightarrow>
               (case t of
                  TComma \<Rightarrow> Some (PValue (InArray (v # acc) # fs'))
                | TRBracket \<Rightarrow> Some (PDone (JArray (rev (v # acc))) fs')
                | _ \<Rightarrow> None)
           | InObject mem k # fs' \<Rightarrow>
               (case t of
                  TComma \<Rightarrow> Some (PKey ((k, v) # mem) fs')
                | TRBrace \<Rightarrow> Some (PDone (JObject (rev ((k, v) # mem))) fs')
                | _ \<Rightarrow> None)))"

fun parse_tokens :: "pstate \<Rightarrow> token list \<Rightarrow> json option" where
  "parse_tokens st [] = (case st of PDone v [] \<Rightarrow> Some v | _ \<Rightarrow> None)"
| "parse_tokens st (t # ts) =
     (case parse_step st t of
        None \<Rightarrow> None
      | Some st' \<Rightarrow> parse_tokens st' ts)"

text \<open>\<^verbatim>\<open>JSON.parse(text)\<close>; \<open>None\<close> is the SyntaxError it throws.\<close>

definition JSON_parse :: "jsstring \<Rightarrow> json option" where
  "JSON_parse s =
     (case lex s of
        None \<Rightarrow> None
      | Some ts \<Rightarrow> parse_tokens (PValue []) ts)"

section \<open>JavaScript values\<close>

text \<open>
  A JavaScript value here is a JSON value or \<^verbatim>\<open>undefined\<close>, which is \<open>None\<close>. What the
  platform does and the program does not decide is a parameter \<open>P\<close>: the truthiness of
  a number and its conversion to a string, and the successive readings of the clock
  (\<open>date_now P k\<close> is what the \<open>k\<close>-th call of \<^verbatim>\<open>Date.now()\<close> returns).
\<close>

record platform =
  number_truthy :: "jsstring \<Rightarrow> bool"
  number_to_string :: "jsstring \<Rightarrow> jsstring"
  date_now :: "nat \<Rightarrow> int"

text \<open>
  \<^verbatim>\<open>v.k\<close> on a value that is neither null nor undefined, for the property names of the
  program (\<^verbatim>\<open>choices\<close>, \<^verbatim>\<open>delta\<close>, \<^verbatim>\<open>content\<close>, \<^verbatim>\<open>model\<close>, \<^verbatim>\<open>messages\<close>, \<^verbatim>\<open>stream\<close>): no
  built-in prototype defines them, so only an object that has the member answers.
\<close>

fun get_prop :: "json \<Rightarrow> jsstring \<Rightarrow> json option" where
  "get_prop (JObject kvs) k = map_of (rev kvs) k"
| "get_prop v k = None"

text \<open>
  \<^verbatim>\<open>v[0]\<close>: the first element of an array, the member \<^verbatim>\<open>"0"\<close> of an object, the first
  code unit of a string.
\<close>

fun get_index0 :: "json \<Rightarrow> json option" where
  "get_index0 (JArray xs) = (case xs of [] \<Rightarrow> None | x # _ \<Rightarrow> Some x)"
| "get_index0 (JObject kvs) = map_of (rev kvs) (lit ''0'')"
| "get_index0 (JString s) = (case s of [] \<Rightarrow> None | c # _ \<Rightarrow> Some (JString [c]))"
| "get_index0 v = None"

text \<open>Optional chaining, \<^verbatim>\<open>v?.k\<close> and \<^verbatim>\<open>v?.[0]\<close>: undefined on null and undefined.\<close>

definition opt_prop :: "json option \<Rightarrow> jsstring \<Rightarrow> json option" where
  "opt_prop v k =
     (case v of None \<Rightarrow> None | Some JNull \<Rightarrow> None | Some x \<Rightarrow> get_prop x k)"

definition opt_index0 :: "json option \<Rightarrow> json option" where
  "opt_index0 v =
     (case v of None \<Rightarrow> None | Some JNull \<Rightarrow> None | Some x \<Rightarrow> get_index0 x)"

fun truthy :: "('a platform_scheme) \<Rightarrow> json option \<Rightarrow> bool" where
  "truthy P None = False"
| "truthy P (Some JNull) = False"
| "truthy P (Some (JBool b)) = b"
| "truthy P (Some (JNumber n)) = number_truthy P n"
| "truthy P (Some (JString s)) = (s \<noteq> [])"
| "truthy P (Some (JArray xs)) = True"
| "truthy P (Some (JObject kvs)) = True"

text \<open>\<^verbatim>\<open>xs.join(',')\<close> on strings.\<close>

fun join_comma :: "jsstring list \<Rightarrow> jsstring" where
  "join_comma [] = []"
| "join_comma [x] = x"
| "join_comma (x # y # ys) = x @ 0x2C # join_comma (y # ys)"

fun sequence :: "'a option list \<Rightarrow> 'a list option" where
  "sequence [] = Some []"
| "sequence (None # xs) = None"
| "sequence (Some x # xs) = map_option ((#) x) (sequence xs)"

text \<open>
  The string that \<^verbatim>\<open>s += v\<close> appends for a string \<open>s\<close>. An array is joined with commas,
  null elements giving the empty string. A plain object gives \<^verbatim>\<open>[object Object]\<close>,
  unless it has a member \<^verbatim>\<open>toString\<close>: that value is not callable, the inherited
  \<^verbatim>\<open>valueOf\<close> returns the object, and the conversion throws a TypeError (\<open>None\<close>).
\<close>

fun to_string :: "('a platform_scheme) \<Rightarrow> json \<Rightarrow> jsstring option" where
  "to_string P JNull = Some (lit ''null'')"
| "to_string P (JBool b) = Some (if b then lit ''true'' else lit ''false'')"
| "to_string P (JNumber n) = Some (number_to_string P n)"
| "to_string P (JString s) = Some s"
| "to_string P (JArray xs) =
     map_option join_comma
       (sequence (map (\<lambda>x. if x = JNull then Some [] else to_string P x) xs))"
| "to_string P (JObject kvs) =
     (if map_of kvs (lit ''toString'') = None then Some (lit ''[object Object]'') else None)"

section \<open>\<^verbatim>\<open>TextDecoder\<close>: streaming UTF-8\<close>

text \<open>
  The UTF-8 decoder of the Encoding standard, one byte at a time, in replacement mode
  (a malformed sequence gives U+FFFD). Its state lives across the calls of
  \<^verbatim>\<open>decoder.decode(chunk, { stream: true })\<close>, so a character split between two chunks
  is decoded once its last byte arrives.
\<close>

record utf8_decoder =
  code_point :: nat
  bytes_seen :: nat
  bytes_needed :: nat
  lower_boundary :: byte
  upper_boundary :: byte
  bom_seen :: bool

definition new_decoder :: utf8_decoder where
  "new_decoder =
     \<lparr>code_point = 0, bytes_seen = 0, bytes_needed = 0,
      lower_boundary = 0x80, upper_boundary = 0xBF, bom_seen = False\<rparr>"

definition reset_decoder :: "utf8_decoder \<Rightarrow> utf8_decoder" where
  "reset_decoder d =
     d\<lparr>code_point := 0, bytes_seen := 0, bytes_needed := 0,
       lower_boundary := 0x80, upper_boundary := 0xBF\<rparr>"

text \<open>A byte read when no sequence is pending.\<close>

definition utf8_lead :: "utf8_decoder \<Rightarrow> byte \<Rightarrow> nat list \<times> utf8_decoder" where
  "utf8_lead d b =
     (if b \<le> 0x7F then ([unat b], d)
      else if 0xC2 \<le> b \<and> b \<le> 0xDF then
        ([], d\<lparr>code_point := unat (b AND 0x1F), bytes_needed := 1\<rparr>)
      else if 0xE0 \<le> b \<and> b \<le> 0xEF then
        ([], d\<lparr>code_point := unat (b AND 0x0F), bytes_needed := 2,
               lower_boundary := (if b = 0xE0 then 0xA0 else lower_boundary d),
               upper_boundary := (if b = 0xED then 0x9F else upper_boundary d)\<rparr>)
      else if 0xF0 \<le> b \<and> b \<le> 0xF4 then
        ([], d\<lparr>code_point := unat (b AND 0x07), bytes_needed := 3,
               lower_boundary := (if b = 0xF0 then 0x90 else lower_boundary d),
               upper_boundary := (if b = 0xF4 then 0x8F else upper_boundary d)\<rparr>)
      else ([0xFFFD], d))"

text \<open>
  One byte: the code points it completes and the new state. A byte that cannot continue
  the pending sequence ends it with U+FFFD and is read again as a first byte.
\<close>

definition utf8_handler :: "utf8_decoder \<Rightarrow> byte \<Rightarrow> nat list \<times> utf8_decoder" where
  "utf8_handler d b =
     (if bytes_needed d = 0 then utf8_lead d b
      else if b < lower_boundary d \<or> upper_boundary d < b then
        (let (out, d') = utf8_lead (reset_decoder d) b in (0xFFFD # out, d'))
      else
        (let cp = code_point d * 64 + unat (b AND 0x3F);
             seen = bytes_seen d + 1
         in if seen \<noteq> bytes_needed d then
              ([], d\<lparr>code_point := cp, bytes_seen := seen,
                     lower_boundary := 0x80, upper_boundary := 0xBF\<rparr>)
            else ([cp], reset_decoder d)))"

text \<open>A code point as UTF-16 code units.\<close>

definition utf16 :: "nat \<Rightarrow> jsstring" where
  "utf16 cp =
     (if cp < 0x10000 then [of_nat cp]
      else [of_nat (0xD800 + (cp - 0x10000) div 0x400),
            of_nat (0xDC00 + (cp - 0x10000) mod 0x400)])"

text \<open>The first code point of the whole stream is dropped when it is the byte order mark.\<close>

definition decode_byte :: "utf8_decoder \<Rightarrow> byte \<Rightarrow> jsstring \<times> utf8_decoder" where
  "decode_byte d b =
     (let (cps, d1) = utf8_handler d b
      in if bom_seen d1 \<or> cps = [] then (concat (map utf16 cps), d1)
         else (concat (map utf16 (if hd cps = 0xFEFF then tl cps else cps)),
               d1\<lparr>bom_seen := True\<rparr>))"

text \<open>\<^verbatim>\<open>decoder.decode(chunk, { stream: true })\<close>: the text and the decoder's new state.\<close>

fun decode :: "utf8_decoder \<Rightarrow> byte list \<Rightarrow> jsstring \<times> utf8_decoder" where
  "decode d [] = ([], d)"
| "decode d (b # bs) =
     (let (u, d1) = decode_byte d b;
          (v, d2) = decode d1 bs
      in (u @ v, d2))"

text \<open>
  \<^verbatim>\<open>await response.text()\<close> and the decoding step of \<^verbatim>\<open>await request.json()\<close>: the whole
  body decoded at once; a sequence cut by the end of the body gives a last U+FFFD.
\<close>

definition body_text :: "byte list \<Rightarrow> jsstring" where
  "body_text bs =
     (let (t, d) = decode new_decoder bs
      in if bytes_needed d = 0 then t else t @ [0xFFFD])"

section \<open>Configuration\<close>

text \<open>
  \<^verbatim>\<open>CONFIG\<close>, read once from the environment: \<^verbatim>\<open>process.env.X || "literal"\<close> takes the
  literal when the variable is unset or empty. The default model name is
  \<^verbatim>\<open>L1T3-\<close> followed by U+03A9, U+1D39 and U+00B2.
\<close>

record config =
  PROJECT_NAME :: jsstring
  API_MASTER_KEY :: jsstring
  MODELS :: "jsstring list"
  DEFAULT_MODEL :: jsstring

definition model_name :: jsstring where
  "model_name = lit ''L1T3-'' @ [0x03A9, 0x1D39, 0x00B2]"

definition env_or :: "jsstring option \<Rightarrow> jsstring \<Rightarrow> jsstring" where
  "env_or v d = (case v of None \<Rightarrow> d | Some x \<Rightarrow> if x = [] then d else x)"

definition CONFIG :: "(string \<Rightarrow> jsstring option) \<Rightarrow> config" where
  "CONFIG env =
     \<lparr>PROJECT_NAME = lit ''botzy-2api-bun'',
      API_MASTER_KEY = env_or (env ''API_MASTER_KEY'') (lit ''1''),
      MODELS = [model_name],
      DEFAULT_MODEL = env_or (env ''DEFAULT_MODEL'') model_name\<rparr>"

section \<open>The request adapter: \<^verbatim>\<open>transformRequestToUpstream\<close>\<close>

datatype js_error = TypeError | SyntaxError | NetworkError

record settings =
  avatar :: json
  name :: jsstring
  nickname :: jsstring
  age :: nat
  gender :: jsstring

record UpstreamRequest =
  task :: jsstring
  model :: json
  messages :: "json option"
  imageUrl :: json
  settings :: settings

text \<open>\<^verbatim>\<open>v || d\<close>.\<close>

definition or_default :: "('a platform_scheme) \<Rightarrow> json option \<Rightarrow> json \<Rightarrow> json" where
  "or_default P v d = (case v of None \<Rightarrow> d | Some x \<Rightarrow> if truthy P (Some x) then x else d)"

text \<open>
  \<open>requestData\<close> is what \<^verbatim>\<open>request.json()\<close> returned, any JSON value. Reading a property
  of null throws a TypeError; every other value answers, with undefined where it has
  no such member.
\<close>

definition transformRequestToUpstream ::
  "('a platform_scheme) \<Rightarrow> config \<Rightarrow> json \<Rightarrow> js_error + UpstreamRequest" where
  "transformRequestToUpstream P cfg requestData =
     (if requestData = JNull then Inl TypeError
      else Inr
        \<lparr>task = lit ''chat'',
         model = or_default P (get_prop requestData (lit ''model'')) (JString (DEFAULT_MODEL cfg)),
         messages = get_prop requestData (lit ''messages''),
         imageUrl = JNull,
         settings = \<lparr>avatar = JNull, name = [], nickname = [], age = 0,
                     gender = lit ''other''\<rparr>\<rparr>)"

section \<open>The stream relay: \<^verbatim>\<open>createUpstreamToOpenAIStream\<close>\<close>

text \<open>
  An OpenAI chunk. The delta is \<^verbatim>\<open>{content: s}\<close> (\<open>Some s\<close>) or \<^verbatim>\<open>{}\<close> (\<open>None\<close>); the
  finish reason is a string or null (\<open>None\<close>).
\<close>

record choice =
  choice_index :: nat
  delta_content :: "jsstring option"
  finish_reason :: "jsstring option"

record OpenAIChunk =
  chunk_id :: jsstring
  chunk_object :: jsstring
  chunk_created :: int
  chunk_model :: json
  chunk_choices :: "choice list"

text \<open>
  What \<^verbatim>\<open>controller.enqueue\<close> receives: the encoding of
  \<^verbatim>\<open>data: ${JSON.stringify(chunk)}\n\n\<close> for a chunk, or of a literal text.
\<close>

datatype sse = SSE_data OpenAIChunk | SSE_text jsstring

text \<open>\<^verbatim>\<open>Math.floor(Date.now() / 1000)\<close> at the \<open>k\<close>-th reading of the clock.\<close>

definition created_at :: "('a platform_scheme) \<Rightarrow> nat \<Rightarrow> int" where
  "created_at P k = date_now P k div 1000"

text \<open>
  The state of one stream: the decoder, the buffer, and how often the clock was read.
\<close>

record relay_state =
  decoder :: utf8_decoder
  buffer :: jsstring
  clock :: nat

text \<open>
  The body of the loop over the lines, for one line: what is enqueued and the clock.
  The \<^verbatim>\<open>catch\<close> of the source is the \<open>None\<close> branch of \<open>JSON_parse\<close>; nothing else in the
  \<^verbatim>\<open>try\<close> block throws.
\<close>

definition relay_line ::
  "('a platform_scheme) \<Rightarrow> jsstring \<Rightarrow> json \<Rightarrow> nat \<Rightarrow> jsstring \<Rightarrow> sse list \<times> nat" where
  "relay_line P requestId mdl k line =
     (if startsWith line (lit ''data:'') then
        (let dataStr = trim (substring 5 line)
         in if dataStr = lit ''[DONE]'' then ([], k)
            else
              (case JSON_parse dataStr of
                 None \<Rightarrow> ([], k)
               | Some data \<Rightarrow>
                   (let delta = opt_prop (opt_index0 (opt_prop (Some data) (lit ''choices'')))
                                  (lit ''delta'')
                    in case delta of
                         None \<Rightarrow> ([], k)
                       | Some d \<Rightarrow>
                           if truthy P delta then
                             (case get_prop d (lit ''content'') of
                                Some (JString content) \<Rightarrow>
                                  ([SSE_data
                                     \<lparr>chunk_id = requestId,
                                      chunk_object = lit ''chat.completion.chunk'',
                                      chunk_created = created_at P k,
                                      chunk_model = mdl,
                                      chunk_choices =
                                        [\<lparr>choice_index = 0, delta_content = Some content,
                                          finish_reason = None\<rparr>]\<rparr>],
                                   Suc k)
                              | _ \<Rightarrow> ([], k))
                           else ([], k))))
      else ([], k))"

text \<open>\<^verbatim>\<open>for (const line of lines)\<close>.\<close>

fun relay_lines ::
  "('a platform_scheme) \<Rightarrow> jsstring \<Rightarrow> json \<Rightarrow> nat \<Rightarrow> jsstring list \<Rightarrow> sse list \<times> nat" where
  "relay_lines P requestId mdl k [] = ([], k)"
| "relay_lines P requestId mdl k (line # lines) =
     (let (out1, k1) = relay_line P requestId mdl k line;
          (out2, k2) = relay_lines P requestId mdl k1 lines
      in (out1 @ out2, k2))"

text \<open>
  The event frame reassembler, the first three statements of \<^verbatim>\<open>transform\<close>: the text
  is appended to the buffer and split on newlines; \<^verbatim>\<open>lines.pop()\<close> takes the last
  segment as the new buffer, the others are the lines.
\<close>

definition reassemble :: "jsstring \<Rightarrow> jsstring \<Rightarrow> jsstring list \<times> jsstring" where
  "reassemble buf text =
     (let lines = split_nl (buf @ text)
      in (butlast lines, last lines))"

definition transform ::
  "('a platform_scheme) \<Rightarrow> jsstring \<Rightarrow> json \<Rightarrow> relay_state \<Rightarrow> byte list
     \<Rightarrow> sse list \<times> relay_state" where
  "transform P requestId mdl st chunk =
     (let (text, d) = decode (decoder st) chunk;
          (lines, buf) = reassemble (buffer st) text;
          (out, k) = relay_lines P requestId mdl (clock st) lines
      in (out, \<lparr>decoder = d, buffer = buf, clock = k\<rparr>))"

definition flush ::
  "('a platform_scheme) \<Rightarrow> jsstring \<Rightarrow> json \<Rightarrow> relay_state \<Rightarrow> sse list" where
  "flush P requestId mdl st =
     [SSE_data
        \<lparr>chunk_id = requestId,
         chunk_object = lit ''chat.completion.chunk'',
         chunk_created = created_at P (clock st),
         chunk_model = mdl,
         chunk_choices =
           [\<lparr>choice_index = 0, delta_content = None, finish_reason = Some (lit ''stop'')\<rparr>]\<rparr>,
      SSE_text (lit ''data: [DONE]\<newline>\<newline>'')]"

text \<open>
  \<^verbatim>\<open>upstreamResponse.body.pipeThrough(transformStream)\<close>: \<^verbatim>\<open>transform\<close> is called on
  every chunk of the upstream body in order, then \<^verbatim>\<open>flush\<close> once when the body ends.
  \<open>pipe\<close> is the part before the end; the buffer starts empty.
\<close>

definition initial_state :: "nat \<Rightarrow> relay_state" where
  "initial_state k = \<lparr>decoder = new_decoder, buffer = [], clock = k\<rparr>"

fun pipe ::
  "('a platform_scheme) \<Rightarrow> jsstring \<Rightarrow> json \<Rightarrow> relay_state \<Rightarrow> byte list list
     \<Rightarrow> sse list \<times> relay_state" where
  "pipe P requestId mdl st [] = ([], st)"
| "pipe P requestId mdl st (chunk # chunks) =
     (let (out1, st1) = transform P requestId mdl st chunk;
          (out2, st2) = pipe P requestId mdl st1 chunks
      in (out1 @ out2, st2))"

definition pipeThrough ::
  "('a platform_scheme) \<Rightarrow> jsstring \<Rightarrow> json \<Rightarrow> nat \<Rightarrow> byte list list \<Rightarrow> sse list" where
  "pipeThrough P requestId mdl k chunks =
     (let (out, st) = pipe P requestId mdl (initial_state k) chunks
      in out @ flush P requestId mdl st)"

section \<open>The response aggregator: \<^verbatim>\<open>transformNonStreamResponse\<close>\<close>

record message_choice =
  message_index :: nat
  message_role :: jsstring
  message_content :: jsstring
  message_finish_reason :: jsstring

record usage =
  prompt_tokens :: nat
  completion_tokens :: nat
  total_tokens :: nat

record OpenAICompletion =
  completion_id :: jsstring
  completion_object :: jsstring
  completion_created :: int
  completion_model :: json
  completion_choices :: "message_choice list"
  completion_usage :: usage

text \<open>
  The body of the loop for one line, from \<open>fullContent\<close> to its new value. A TypeError
  of \<^verbatim>\<open>fullContent += content\<close> is caught like a parse error and leaves it unchanged.
\<close>

definition aggregate_line :: "('a platform_scheme) \<Rightarrow> jsstring \<Rightarrow> jsstring \<Rightarrow> jsstring" where
  "aggregate_line P fullContent line =
     (if startsWith line (lit ''data:'') then
        (let dataStr = trim (substring 5 line)
         in if dataStr = lit ''[DONE]'' then fullContent
            else
              (case JSON_parse dataStr of
                 None \<Rightarrow> fullContent
               | Some data \<Rightarrow>
                   (let content =
                          opt_prop
                            (opt_prop (opt_index0 (opt_prop (Some data) (lit ''choices'')))
                               (lit ''delta''))
                            (lit ''content'')
                    in case content of
                         None \<Rightarrow> fullContent
                       | Some c \<Rightarrow>
                           if truthy P content then
                             (case to_string P c of
                                None \<Rightarrow> fullContent
                              | Some s \<Rightarrow> fullContent @ s)
                           else fullContent)))
      else fullContent)"

definition transformNonStreamResponse ::
  "('a platform_scheme) \<Rightarrow> jsstring \<Rightarrow> jsstring \<Rightarrow> json \<Rightarrow> nat \<Rightarrow> OpenAICompletion" where
  "transformNonStreamResponse P fullBody requestId mdl k =
     (let fullContent = foldl (aggregate_line P) [] (split_nl fullBody)
      in \<lparr>completion_id = requestId,
          completion_object = lit ''chat.completion'',
          completion_created = created_at P k,
          completion_model = mdl,
          completion_choices =
            [\<lparr>message_index = 0, message_role = lit ''assistant'',
              message_content = fullContent, message_finish_reason = lit ''stop''\<rparr>],
          completion_usage = \<lparr>prompt_tokens = 0, completion_tokens = 0, total_tokens = 0\<rparr>\<rparr>)"

section \<open>The server: \<^verbatim>\<open>Bun.serve\<close>, \<^verbatim>\<open>handleApi\<close>, \<^verbatim>\<open>handleChatCompletions\<close>\<close>

text \<open>
  A request as the handlers read it: the method, the path of its URL, the value of its
  Authorization header (\<open>None\<close> when \<^verbatim>\<open>headers.get\<close> returns null) and the bytes of its
  body. Response headers are left out. The world outside the program is the UUID that
  \<^verbatim>\<open>crypto.randomUUID()\<close> returns and the upstream service answering \<^verbatim>\<open>fetch\<close>. The
  body of an upstream response is the list of its chunks, or null (\<open>None\<close>) for an answer
  without a body; \<^verbatim>\<open>text()\<close> reads a null body as the empty text, and calling
  \<^verbatim>\<open>pipeThrough\<close> on it throws a TypeError.
\<close>

record request =
  http_method :: jsstring
  pathname :: jsstring
  authorization :: "jsstring option"
  request_body :: "byte list"

record upstream_response =
  ok :: bool
  upstream_status :: nat
  content_type :: "jsstring option"
  upstream_body :: "byte list list option"

record world =
  randomUUID :: jsstring
  fetch_upstream :: "UpstreamRequest \<Rightarrow> jsstring \<Rightarrow> js_error + upstream_response"

text \<open>What a handler did before it answered, in order.\<close>

datatype effect =
    Generate_request_id
  | Read_request_json
  | Transform_request
  | Call_upstream

datatype error_message =
    Missing_Bearer_Token
  | Invalid_API_Key
  | Unsupported_path jsstring
  | Path_not_found jsstring
  | Upstream_error nat jsstring
  | Internal_Error js_error

datatype response_body =
    No_body
  | Health jsstring
  | Error_body error_message jsstring jsstring
  | Models_list "(jsstring \<times> int) list"
  | Event_stream "sse list"
  | Completion OpenAICompletion

record response =
  status :: nat
  body :: response_body

definition handleCorsPreflight :: response where
  "handleCorsPreflight = \<lparr>status = 204, body = No_body\<rparr>"

definition createErrorResponse :: "error_message \<Rightarrow> nat \<Rightarrow> jsstring \<Rightarrow> response" where
  "createErrorResponse message st code =
     \<lparr>status = st, body = Error_body message (lit ''api_error'') code\<rparr>"

definition handleModelsRequest :: "('a platform_scheme) \<Rightarrow> config \<Rightarrow> nat \<Rightarrow> response" where
  "handleModelsRequest P cfg k =
     \<lparr>status = 200,
      body = Models_list
               (map (\<lambda>(i, modelId). (modelId, created_at P (k + i)))
                  (enumerate 0 (MODELS cfg)))\<rparr>"

definition upstream_text :: "upstream_response \<Rightarrow> jsstring" where
  "upstream_text r =
     (case upstream_body r of None \<Rightarrow> body_text [] | Some chunks \<Rightarrow> body_text (concat chunks))"

definition handleChatCompletions ::
  "('a platform_scheme) \<Rightarrow> config \<Rightarrow> world \<Rightarrow> request \<Rightarrow> jsstring \<Rightarrow> nat
     \<Rightarrow> effect list \<times> response" where
  "handleChatCompletions P cfg W req requestId k =
     (case JSON_parse (body_text (request_body req)) of
        None \<Rightarrow>
          ([Read_request_json],
           createErrorResponse (Internal_Error SyntaxError) 500 (lit ''internal_server_error''))
      | Some requestData \<Rightarrow>
          (case transformRequestToUpstream P cfg requestData of
             Inl e \<Rightarrow>
               ([Read_request_json, Transform_request],
                createErrorResponse (Internal_Error e) 500 (lit ''internal_server_error''))
           | Inr upstreamPayload \<Rightarrow>
               (case fetch_upstream W upstreamPayload requestId of
                  Inl e \<Rightarrow>
                    ([Read_request_json, Transform_request, Call_upstream],
                     createErrorResponse (Internal_Error e) 500
                       (lit ''internal_server_error''))
                | Inr upstreamResponse \<Rightarrow>
                    ([Read_request_json, Transform_request, Call_upstream],
                     if \<not> ok upstreamResponse then
                       createErrorResponse
                         (Upstream_error (upstream_status upstreamResponse)
                            (upstream_text upstreamResponse))
                         (upstream_status upstreamResponse) (lit ''upstream_error'')
                     else
                       (let mdl = or_default P (get_prop requestData (lit ''model''))
                                    (JString (DEFAULT_MODEL cfg))
                        in if truthy P (get_prop requestData (lit ''stream''))
                              \<and> (case content_type upstreamResponse of
                                     None \<Rightarrow> False
                                   | Some contentType \<Rightarrow>
                                       contentType \<noteq> []
                                       \<and> includes_js contentType (lit ''text/event-stream''))
                           then
                             (case upstream_body upstreamResponse of
                                None \<Rightarrow>
                                  createErrorResponse (Internal_Error TypeError) 500
                                    (lit ''internal_server_error'')
                              | Some chunks \<Rightarrow>
                                  \<lparr>status = 200,
                                   body = Event_stream
                                            (pipeThrough P requestId mdl k chunks)\<rparr>)
                           else
                             \<lparr>status = 200,
                              body = Completion
                                       (transformNonStreamResponse P
                                          (upstream_text upstreamResponse)
                                          requestId mdl k)\<rparr>)))))"

definition handleApi ::
  "('a platform_scheme) \<Rightarrow> config \<Rightarrow> world \<Rightarrow> request \<Rightarrow> nat \<Rightarrow> effect list \<times> response" where
  "handleApi P cfg W req k =
     (if http_method req = lit ''OPTIONS'' then ([], handleCorsPreflight)
      else
        (case authorization req of
           None \<Rightarrow> ([], createErrorResponse Missing_Bearer_Token 401 (lit ''unauthorized''))
         | Some authHeader \<Rightarrow>
             if authHeader = [] \<or> \<not> startsWith authHeader (lit ''Bearer '') then
               ([], createErrorResponse Missing_Bearer_Token 401 (lit ''unauthorized''))
             else
               (let token = substring 7 authHeader
                in if token \<noteq> API_MASTER_KEY cfg then
                     ([], createErrorResponse Invalid_API_Key 403 (lit ''invalid_api_key''))
                   else
                     (let requestId = lit ''chatcmpl-'' @ randomUUID W
                      in if pathname req = lit ''/v1/models'' then
                           ([Generate_request_id], handleModelsRequest P cfg k)
                         else if pathname req = lit ''/v1/chat/completions'' then
                           (let (effects, r) = handleChatCompletions P cfg W req requestId k
                            in (Generate_request_id # effects, r))
                         else
                           ([Generate_request_id],
                            createErrorResponse (Unsupported_path (pathname req)) 404
                              (lit ''not_found''))))))"

text \<open>The \<^verbatim>\<open>fetch\<close> function given to \<^verbatim>\<open>Bun.serve\<close>.\<close>

definition serve ::
  "('a platform_scheme) \<Rightarrow> config \<Rightarrow> world \<Rightarrow> request \<Rightarrow> nat \<Rightarrow> effect list \<times> response" where
  "serve P cfg W req k =
     (if pathname req = lit ''/'' \<or> pathname req = lit ''/health'' then
        ([], \<lparr>status = 200, body = Health (PROJECT_NAME cfg)\<rparr>)
      else if startsWith (pathname req) (lit ''/v1/'') then handleApi P cfg W req k
      else
        ([], \<lparr>status = 404,
              body = Error_body (Path_not_found (pathname req))
                       (lit ''invalid_request_error'') (lit ''not_found'')\<rparr>))"

section \<open>Notions of the specification\<close>

text \<open>
  The lines that the reassembler hands to the loop of \<^verbatim>\<open>transform\<close>, over all the chunks
  of a stream: the first components of \<open>reassemble\<close>, call after call, with the decoder
  and the buffer threaded as \<open>transform\<close> threads them.
\<close>

fun relay_frames :: "utf8_decoder \<Rightarrow> jsstring \<Rightarrow> byte list list \<Rightarrow> jsstring list" where
  "relay_frames d buf [] = []"
| "relay_frames d buf (chunk # chunks) =
     (let (text, d1) = decode d chunk;
          (lines, buf1) = reassemble buf text
      in lines @ relay_frames d1 buf1 chunks)"

text \<open>The \<^verbatim>\<open>delta.content\<close> values carried by what a stream emitted, in emission order.\<close>

fun choice_contents :: "choice list \<Rightarrow> jsstring list" where
  "choice_contents [] = []"
| "choice_contents (c # cs) =
     (case delta_content c of None \<Rightarrow> [] | Some s \<Rightarrow> [s]) @ choice_contents cs"

fun delta_contents :: "sse list \<Rightarrow> jsstring list" where
  "delta_contents [] = []"
| "delta_contents (SSE_data c # es) = choice_contents (chunk_choices c) @ delta_contents es"
| "delta_contents (SSE_text t # es) = delta_contents es"

text \<open>The value of \<^verbatim>\<open>choices[0].delta.content\<close> in a parsed event, undefined when absent.\<close>

definition event_content :: "json \<Rightarrow> json option" where
  "event_content data =
     opt_prop (opt_prop (opt_index0 (opt_prop (Some data) (lit ''choices''))) (lit ''delta''))
       (lit ''content'')"

text \<open>
  A valid upstream line: if it is a \<^verbatim>\<open>data:\<close> line whose payload is not \<^verbatim>\<open>[DONE]\<close> and
  parses, then the content of the parsed event is a string or absent.
\<close>

definition valid_event :: "jsstring \<Rightarrow> bool" where
  "valid_event line =
     (if startsWith line (lit ''data:'') \<and> trim (substring 5 line) \<noteq> lit ''[DONE]'' then
        (case JSON_parse (trim (substring 5 line)) of
           None \<Rightarrow> True
         | Some data \<Rightarrow>
             (case event_content data of
                None \<Rightarrow> True
              | Some (JString s) \<Rightarrow> True
              | Some v \<Rightarrow> False))
      else True)"

text \<open>A content chunk: one choice, with a content delta and no finish reason.\<close>

definition is_content_chunk :: "sse \<Rightarrow> bool" where
  "is_content_chunk e =
     (case e of
        SSE_data c \<Rightarrow>
          (case chunk_choices c of
             [ch] \<Rightarrow> delta_content ch \<noteq> None \<and> finish_reason ch = None
           | _ \<Rightarrow> False)
      | SSE_text t \<Rightarrow> False)"

text \<open>The chunk that the relay emits for a content string, at the \<open>k\<close>-th reading of the clock.\<close>

definition content_chunk :: "('a platform_scheme) \<Rightarrow> jsstring \<Rightarrow> json \<Rightarrow> nat \<Rightarrow> jsstring \<Rightarrow> sse" where
  "content_chunk P requestId mdl k content =
     SSE_data
       \<lparr>chunk_id = requestId,
        chunk_object = lit ''chat.completion.chunk'',
        chunk_created = created_at P k,
        chunk_model = mdl,
        chunk_choices =
          [\<lparr>choice_index = 0, delta_content = Some content, finish_reason = None\<rparr>]\<rparr>"

text \<open>The \<^verbatim>\<open>message.content\<close> of every choice of a completion (there is one choice).\<close>

definition completion_content :: "OpenAICompletion \<Rightarrow> jsstring list" where
  "completion_content c = map message_content (completion_choices c)"

text \<open>
  The content string that a line carries, by the words of the specification: the
  \<^verbatim>\<open>choices[0].delta.content\<close> of the parsed payload of a \<^verbatim>\<open>data:\<close> line other than
  \<^verbatim>\<open>[DONE]\<close>, when that is a string; no other line carries one.
\<close>

definition line_delta :: "jsstring \<Rightarrow> jsstring option" where
  "line_delta line =
     (if startsWith line (lit ''data:'') \<and> trim (substring 5 line) \<noteq> lit ''[DONE]'' then
        (case JSON_parse (trim (substring 5 line)) of
           None \<Rightarrow> None
         | Some data \<Rightarrow>
             (case event_content data of
                Some (JString s) \<Rightarrow> Some s
              | _ \<Rightarrow> None))
      else None)"

text \<open>The content strings of a sequence of lines, in line order, and their concatenation.\<close>

definition line_deltas :: "jsstring list \<Rightarrow> jsstring list" where
  "line_deltas ls = List.map_filter line_delta ls"

definition lines_content :: "jsstring list \<Rightarrow> jsstring" where
  "lines_content ls = concat (line_deltas ls)"

text \<open>
  A platform, a configuration and a world for the concrete instances below. The number
  functions of the platform stand for IEEE-754 arithmetic and are exact on a part of the
  literals only: a literal is taken as truthy when its mantissa has a digit other than
  zero (exact unless the number underflows to zero), and is printed as it is written
  (exact for literals in the form JavaScript prints, such as \<^verbatim>\<open>5\<close> or \<^verbatim>\<open>-1.5\<close>). The
  instances below contain no number.
\<close>

definition mantissa_nonzero :: "jsstring \<Rightarrow> bool" where
  "mantissa_nonzero n =
     list_ex (\<lambda>c. 0x31 \<le> c \<and> c \<le> 0x39) (takeWhile (\<lambda>c. c \<noteq> 0x65 \<and> c \<noteq> 0x45) n)"

definition example_platform :: platform where
  "example_platform =
     \<lparr>number_truthy = mantissa_nonzero, number_to_string = (\<lambda>n. n),
      date_now = (\<lambda>k. 1700000000000 + int k)\<rparr>"

definition example_config :: config where
  "example_config = CONFIG (\<lambda>v. None)"

definition example_world :: world where
  "example_world =
     \<lparr>randomUUID = lit ''00000000-0000-4000-8000-000000000000'',
      fetch_upstream = (\<lambda>payload requestId. Inl NetworkError)\<rparr>"

text \<open>
  The upstream body of the specification's examples, its two content events, an event
  whose content is the empty string and an event whose content is not a string.
\<close>

definition hi_there :: string where
  "hi_there = ''data: {\"choices\":[{\"delta\":{\"content\":\"Hi\"}}]}\<newline>\<newline>data: {\"choices\":[{\"delta\":{\"content\":\" there\"}}]}\<newline>\<newline>data: [DONE]\<newline>\<newline>''"

definition event_hi :: string where
  "event_hi = ''data: {\"choices\":[{\"delta\":{\"content\":\"Hi\"}}]}''"

definition event_there :: string where
  "event_there = ''data: {\"choices\":[{\"delta\":{\"content\":\" there\"}}]}''"

definition event_empty :: string where
  "event_empty = ''data: {\"choices\":[{\"delta\":{\"content\":\"\"}}]}''"

definition event_true :: string where
  "event_true = ''data: {\"choices\":[{\"delta\":{\"content\":true}}]}''"

text \<open>
  A line that is not JSON, and three streams: the two content events with the malformed
  line between them, with a \<^verbatim>\<open>[DONE]\<close> line between them, and with nothing between them.
\<close>

definition event_bad :: string where
  "event_bad = ''data: not-json''"

definition stream_bad :: string where
  "stream_bad = ''data: {\"choices\":[{\"delta\":{\"content\":\"Hi\"}}]}\<newline>data: not-json\<newline>data: {\"choices\":[{\"delta\":{\"content\":\" there\"}}]}\<newline>''"

definition stream_done :: string where
  "stream_done = ''data: {\"choices\":[{\"delta\":{\"content\":\"Hi\"}}]}\<newline>data: [DONE]\<newline>data: {\"choices\":[{\"delta\":{\"content\":\" there\"}}]}\<newline>''"

definition stream_plain :: string where
  "stream_plain = ''data: {\"choices\":[{\"delta\":{\"content\":\"Hi\"}}]}\<newline>data: {\"choices\":[{\"delta\":{\"content\":\" there\"}}]}\<newline>''"




text \<open>A chat request with a given Authorization header.\<close>

definition chat_request :: "jsstring option \<Rightarrow> request" where
  "chat_request h =
     \<lparr>http_method = lit ''POST'', pathname = lit ''/v1/chat/completions'',
      authorization = h, request_body = bytes_of ''{\"messages\":[]}''\<rparr>"

section \<open>Splitting and reassembling\<close>

lemma split_nl_nonempty: "split_nl xs \<noteq> []"
  by (induction xs) (auto split: list.splits)

lemma split_nl_segments: "l \<in> set (split_nl xs) \<Longrightarrow> NL \<notin> set l"
proof (induction xs arbitrary: l)
  case Nil
  then show ?case by simp
next
  case (Cons c cs)
  obtain a as where s: "split_nl cs = a # as"
    using split_nl_nonempty [of cs] by (cases "split_nl cs") auto
  have "NL \<notin> set a" and "\<And>x. x \<in> set as \<Longrightarrow> NL \<notin> set x"
    using Cons.IH s by auto
  with Cons.prems s show ?case
    by (auto split: if_splits)
qed

lemma split_nl_last: "NL \<notin> set (last (split_nl xs))"
  using split_nl_segments [of "last (split_nl xs)" xs] split_nl_nonempty [of xs]
  by simp

lemma split_nl_no_newline: "NL \<notin> set xs \<Longrightarrow> split_nl xs = [xs]"
  by (induction xs) auto

lemma split_nl_append:
  "split_nl (xs @ ys) = butlast (split_nl xs) @ split_nl (last (split_nl xs) @ ys)"
proof (induction xs)
  case Nil
  show ?case by simp
next
  case (Cons c cs)
  obtain a as where s: "split_nl cs = a # as"
    using split_nl_nonempty [of cs] by (cases "split_nl cs") auto
  show ?case
  proof (cases "c = NL")
    case True
    with Cons s show ?thesis by simp
  next
    case False
    show ?thesis
    proof (cases as)
      case Nil
      with False Cons s show ?thesis by simp
    next
      case (Cons b bs)
      with False Cons.IH s show ?thesis by simp
    qed
  qed
qed

lemma split_nl_append_no_newline:
  assumes "NL \<notin> set ys"
  shows "split_nl (xs @ ys) = butlast (split_nl xs) @ [last (split_nl xs) @ ys]"
proof -
  have "NL \<notin> set (last (split_nl xs) @ ys)"
    using assms split_nl_last [of xs] by simp
  then show ?thesis
    by (simp add: split_nl_append [of xs ys] split_nl_no_newline)
qed

lemma split_nl_line_newline: "NL \<notin> set l \<Longrightarrow> split_nl (l @ [NL]) = [l, []]"
  by (induction l) auto

lemma split_nl_snoc_newline: "split_nl (xs @ [NL]) = split_nl xs @ [[]]"
proof -
  have "split_nl (last (split_nl xs) @ [NL]) = [last (split_nl xs), []]"
    using split_nl_last [of xs] by (rule split_nl_line_newline)
  then show ?thesis
    using split_nl_nonempty [of xs] by (simp add: split_nl_append [of xs "[NL]"])
qed


section \<open>Streams as sequences of lines\<close>

lemma decode_append:
  "decode d (a @ b) = (let (u, d1) = decode d a; (v, d2) = decode d1 b in (u @ v, d2))"
  by (induction a arbitrary: d) (auto split: prod.splits)

lemma relay_lines_append:
  "relay_lines P r m k (xs @ ys) =
     (let (o1, k1) = relay_lines P r m k xs; (o2, k2) = relay_lines P r m k1 ys
      in (o1 @ o2, k2))"
  by (induction xs arbitrary: k) (auto split: prod.splits)

lemma reassemble_buffer: "NL \<notin> set (snd (reassemble buf text))"
  by (simp add: reassemble_def Let_def split_nl_last)

lemma split_nl_append3:
  "split_nl (b @ t @ u) =
     butlast (split_nl (b @ t)) @ split_nl (last (split_nl (b @ t)) @ u)"
  using split_nl_append [of "b @ t" u] by simp

lemma relay_frames_eq:
  assumes "NL \<notin> set buf"
  shows "relay_frames d buf chunks = butlast (split_nl (buf @ fst (decode d (concat chunks))))"
  using assms
proof (induction chunks arbitrary: d buf)
  case Nil
  then show ?case by (simp add: split_nl_no_newline)
next
  case (Cons c cs)
  obtain t d1 where t: "decode d c = (t, d1)" by (cases "decode d c")
  obtain t2 d2 where t2: "decode d1 (concat cs) = (t2, d2)" by (cases "decode d1 (concat cs)")
  have "butlast (split_nl (buf @ t @ t2)) =
          butlast (split_nl (buf @ t)) @ butlast (split_nl (last (split_nl (buf @ t)) @ t2))"
    using split_nl_nonempty [of "last (split_nl (buf @ t)) @ t2"]
    by (simp add: split_nl_append3 butlast_append)
  with t t2 Cons.IH [of "last (split_nl (buf @ t))" d1] show ?case
    by (simp add: decode_append reassemble_def Let_def split_nl_last)
qed

lemma pipe_frames:
  assumes "NL \<notin> set (buffer st)"
  shows "pipe P r m st chunks =
     (let T = decode (decoder st) (concat chunks);
          R = relay_lines P r m (clock st) (relay_frames (decoder st) (buffer st) chunks)
      in (fst R, \<lparr>decoder = snd T, buffer = last (split_nl (buffer st @ fst T)), clock = snd R\<rparr>))"
  using assms
proof (induction chunks arbitrary: st)
  case Nil
  then show ?case by (simp add: split_nl_no_newline)
next
  case (Cons c cs)
  obtain t d1 where t: "decode (decoder st) c = (t, d1)" by (cases "decode (decoder st) c")
  obtain t2 d2 where t2: "decode d1 (concat cs) = (t2, d2)" by (cases "decode d1 (concat cs)")
  obtain o1 k1 where r1: "relay_lines P r m (clock st) (butlast (split_nl (buffer st @ t))) = (o1, k1)"
    by (cases "relay_lines P r m (clock st) (butlast (split_nl (buffer st @ t)))")
  let ?st1 = "\<lparr>decoder = d1, buffer = last (split_nl (buffer st @ t)), clock = k1\<rparr>"
  have tr: "transform P r m st c = (o1, ?st1)"
    using t r1 by (simp add: transform_def reassemble_def Let_def)
  have nl: "NL \<notin> set (buffer ?st1)" by (simp add: split_nl_last)
  have l: "last (split_nl (buffer st @ t @ t2)) = last (split_nl (last (split_nl (buffer st @ t)) @ t2))"
    using split_nl_nonempty [of "last (split_nl (buffer st @ t)) @ t2"]
    by (simp add: split_nl_append3)
  show ?case
    using Cons.IH [OF nl] tr t t2 r1 l
    by (simp add: decode_append reassemble_def Let_def relay_lines_append split: prod.splits)
qed

section \<open>One line: relay and aggregator\<close>

lemma delta_content_string:
  "(case v of
      None \<Rightarrow> X
    | Some d \<Rightarrow>
        if truthy P v then (case get_prop d k of Some (JString c) \<Rightarrow> F c | _ \<Rightarrow> X) else X)
   = (case opt_prop v k of Some (JString c) \<Rightarrow> F c | _ \<Rightarrow> X)"
proof (cases v)
  case None
  then show ?thesis by (simp add: opt_prop_def)
next
  case (Some d)
  then show ?thesis by (cases d) (simp_all add: opt_prop_def)
qed

lemma relay_line_eq:
  "relay_line P r m k line =
     (if startsWith line (lit ''data:'') \<and> trim (substring 5 line) \<noteq> lit ''[DONE]'' then
        (case JSON_parse (trim (substring 5 line)) of
           None \<Rightarrow> ([], k)
         | Some data \<Rightarrow>
             (case event_content data of
                Some (JString s) \<Rightarrow> ([content_chunk P r m k s], Suc k)
              | _ \<Rightarrow> ([], k)))
      else ([], k))"
  unfolding relay_line_def event_content_def content_chunk_def Let_def
  by (simp add: delta_content_string split: option.splits)

lemma aggregate_line_eq:
  "aggregate_line P acc line =
     (if startsWith line (lit ''data:'') \<and> trim (substring 5 line) \<noteq> lit ''[DONE]'' then
        (case JSON_parse (trim (substring 5 line)) of
           None \<Rightarrow> acc
         | Some data \<Rightarrow>
             (case event_content data of
                None \<Rightarrow> acc
              | Some v \<Rightarrow>
                  if truthy P (Some v) then
                    (case to_string P v of None \<Rightarrow> acc | Some s \<Rightarrow> acc @ s)
                  else acc))
      else acc)"
  unfolding aggregate_line_def event_content_def Let_def
  by (simp split: option.splits)

lemma relay_line_skip:
  assumes "\<not> startsWith line (lit ''data:'') \<or> trim (substring 5 line) = lit ''[DONE]''
           \<or> JSON_parse (trim (substring 5 line)) = None"
  shows "relay_line P r m k line = ([], k)"
  using assms by (auto simp: relay_line_eq)

lemma aggregate_line_skip:
  assumes "\<not> startsWith line (lit ''data:'') \<or> trim (substring 5 line) = lit ''[DONE]''
           \<or> JSON_parse (trim (substring 5 line)) = None"
  shows "aggregate_line P acc line = acc"
  using assms by (auto simp: aggregate_line_eq)

lemma aggregate_line_valid:
  assumes "valid_event line"
  shows "aggregate_line P acc line = acc @ concat (delta_contents (fst (relay_line P r m k line)))"
proof (cases "\<not> startsWith line (lit ''data:'') \<or> trim (substring 5 line) = lit ''[DONE]''
           \<or> JSON_parse (trim (substring 5 line)) = None")
  case True
  then show ?thesis
    by (simp only: relay_line_skip aggregate_line_skip) simp
next
  case False
  then obtain data where guard: "startsWith line (lit ''data:'')"
      "trim (substring 5 line) \<noteq> lit ''[DONE]''"
      "JSON_parse (trim (substring 5 line)) = Some data"
    by auto
  show ?thesis
  proof (cases "event_content data")
    case None
    with guard show ?thesis
      by (simp add: aggregate_line_eq relay_line_eq)
  next
    case content: (Some v)
    with assms guard obtain s where "v = JString s"
      by (cases v) (simp_all add: valid_event_def)
    with guard content show ?thesis
      by (simp add: aggregate_line_eq relay_line_eq content_chunk_def)
  qed
qed

lemma aggregate_lines_valid:
  assumes "\<forall>l \<in> set ls. valid_event l"
  shows "foldl (aggregate_line P) acc ls =
           acc @ concat (delta_contents (fst (relay_lines P r m k ls)))"
  using assms
proof (induction ls arbitrary: acc k)
  case Nil
  show ?case by simp
next
  case (Cons l ls)
  obtain o1 k1 where 1: "relay_line P r m k l = (o1, k1)" by (cases "relay_line P r m k l")
  obtain o2 k2 where 2: "relay_lines P r m k1 ls = (o2, k2)" by (cases "relay_lines P r m k1 ls")
  have d: "delta_contents (xs @ ys) = delta_contents xs @ delta_contents ys" for xs ys
    by (induction xs rule: delta_contents.induct) simp_all
  have "aggregate_line P acc l = acc @ concat (delta_contents o1)"
    using aggregate_line_valid [of l P acc r m k] Cons.prems 1 by simp
  moreover have "foldl (aggregate_line P) (acc @ concat (delta_contents o1)) ls =
      (acc @ concat (delta_contents o1)) @ concat (delta_contents o2)"
    using Cons.IH [of "acc @ concat (delta_contents o1)" k1] Cons.prems 2 by simp
  ultimately show ?case
    using 1 2 by (simp add: d)
qed

section \<open>The whole stream\<close>

lemma delta_contents_append:
  "delta_contents (xs @ ys) = delta_contents xs @ delta_contents ys"
  by (induction xs rule: delta_contents.induct) simp_all

lemma delta_contents_flush: "delta_contents (flush P r m st) = []"
  by (simp add: flush_def)

lemma pipeThrough_frames:
  "pipeThrough P r m k chunks =
     (let R = relay_lines P r m k (relay_frames new_decoder [] chunks)
      in fst R @ flush P r m (initial_state (snd R)))"
  by (simp add: pipeThrough_def pipe_frames initial_state_def Let_def flush_def split: prod.splits)

section \<open>The decoder at a newline\<close>

lemma utf8_lead_lower: "0x80 \<le> lower_boundary d \<Longrightarrow> 0x80 \<le> lower_boundary (snd (utf8_lead d b))"
  by (simp add: utf8_lead_def)

lemma utf8_handler_lower:
  "0x80 \<le> lower_boundary d \<Longrightarrow> 0x80 \<le> lower_boundary (snd (utf8_handler d b))"
  by (simp add: utf8_handler_def utf8_lead_def reset_decoder_def Let_def split: prod.splits)

lemma decode_byte_lower:
  "0x80 \<le> lower_boundary d \<Longrightarrow> 0x80 \<le> lower_boundary (snd (decode_byte d b))"
  using utf8_handler_lower [of d b]
  by (auto simp: decode_byte_def split: prod.splits)

lemma decode_lower:
  "0x80 \<le> lower_boundary d \<Longrightarrow> 0x80 \<le> lower_boundary (snd (decode d bs))"
proof (induction bs arbitrary: d)
  case Nil
  then show ?case by simp
next
  case (Cons b bs)
  from Cons.IH [OF decode_byte_lower [OF Cons.prems, of b]]
  show ?case by (auto split: prod.splits)
qed

lemma decode_byte_newline:
  assumes "0x80 \<le> lower_boundary d"
  shows "\<exists>u. fst (decode_byte d 0x0A) = u @ [NL] \<and> bytes_needed (snd (decode_byte d 0x0A)) = 0"
proof (cases "bytes_needed d = 0")
  case True
  then show ?thesis
    by (simp add: decode_byte_def utf8_handler_def utf8_lead_def utf16_def NL_def)
next
  case False
  have "(0x0A :: byte) < lower_boundary d"
    using assms by (simp add: word_less_def word_le_def) 
  with False show ?thesis
    by (simp add: decode_byte_def utf8_handler_def utf8_lead_def utf16_def NL_def
          reset_decoder_def)
qed

lemma body_text_newline:
  assumes "last bytes = 0x0A" "bytes \<noteq> []"
  shows "\<exists>t. body_text bytes = t @ [NL]"
proof -
  obtain bs where b: "bytes = bs @ [0x0A]"
    using assms by (metis append_butlast_last_id)
  obtain t1 d1 where 1: "decode new_decoder bs = (t1, d1)" by (cases "decode new_decoder bs")
  have "0x80 \<le> lower_boundary d1"
    using decode_lower [of new_decoder bs] 1 by (simp add: new_decoder_def)
  from decode_byte_newline [OF this] obtain u where
    u: "fst (decode_byte d1 0x0A) = u @ [NL]" "bytes_needed (snd (decode_byte d1 0x0A)) = 0"
    by blast
  show ?thesis
    using 1 u by (auto simp: b body_text_def decode_append split: prod.splits)
qed

section \<open>Streaming against aggregation\<close>

lemma body_text_split:
  "\<exists>x. NL \<notin> set x \<and> body_text bytes = fst (decode new_decoder bytes) @ x"
proof -
  have "NL \<notin> set [0xFFFD :: code_unit]" by (simp add: NL_def)
  then show ?thesis
    by (cases "decode new_decoder bytes") (auto simp: body_text_def)
qed

lemma split_nl_body_text:
  "\<exists>tail. split_nl (body_text bytes) =
     butlast (split_nl (fst (decode new_decoder bytes))) @ [tail]"
proof -
  obtain x where "NL \<notin> set x" "body_text bytes = fst (decode new_decoder bytes) @ x"
    using body_text_split by blast
  then show ?thesis
    by (simp add: split_nl_append_no_newline)
qed

lemma completion_content_fold:
  "completion_content (transformNonStreamResponse P fullBody r m k) =
     [foldl (aggregate_line P) [] (split_nl fullBody)]"
  by (simp add: completion_content_def transformNonStreamResponse_def Let_def)

lemma stream_content_frames:
  "delta_contents (pipeThrough P r m k chunks) =
     delta_contents (fst (relay_lines P r m k (relay_frames new_decoder [] chunks)))"
  by (simp add: pipeThrough_frames Let_def delta_contents_append delta_contents_flush)

lemma relay_agrees_up_to_tail:
  assumes "\<forall>line \<in> set (split_nl (body_text (concat chunks))). valid_event line"
  shows "completion_content (transformNonStreamResponse P (body_text (concat chunks)) r m k') =
     [concat (delta_contents (pipeThrough P r m k chunks))
        @ concat (delta_contents
            (fst (relay_line P r m k (last (split_nl (body_text (concat chunks)))))))]"
proof -
  let ?T = "fst (decode new_decoder (concat chunks))"
  obtain tail where s: "split_nl (body_text (concat chunks)) = butlast (split_nl ?T) @ [tail]"
    using split_nl_body_text by blast
  have v: "\<forall>l \<in> set (butlast (split_nl ?T)). valid_event l" and vt: "valid_event tail"
    using assms s by auto
  have f: "relay_frames new_decoder [] chunks = butlast (split_nl ?T)"
    using relay_frames_eq [of "[]" new_decoder chunks] by simp
  have "foldl (aggregate_line P) [] (butlast (split_nl ?T) @ [tail]) =
          aggregate_line P (foldl (aggregate_line P) [] (butlast (split_nl ?T))) tail"
    by simp
  also have "\<dots> = foldl (aggregate_line P) [] (butlast (split_nl ?T))
          @ concat (delta_contents (fst (relay_line P r m k tail)))"
    using aggregate_line_valid [OF vt] .
  also have "foldl (aggregate_line P) [] (butlast (split_nl ?T)) =
          concat (delta_contents (fst (relay_lines P r m k (butlast (split_nl ?T)))))"
    using aggregate_lines_valid [OF v, of P "[]" r m k] by simp
  finally show ?thesis
    by (simp add: completion_content_fold s stream_content_frames f)
qed

section \<open>Decoding ASCII\<close>

lemma decode_byte_ascii:
  assumes "b \<le> 0x7F" "bytes_needed d = 0"
  shows "decode_byte d b = ([ucast b], d\<lparr>bom_seen := True\<rparr>)"
proof -
  have "unat b \<le> 127" using assms(1) by (simp add: word_le_nat_alt)
  then have "unat b < 0x10000" "unat b \<noteq> 0xFEFF" by simp_all
  with assms show ?thesis
    by (cases "bom_seen d") (simp_all add: decode_byte_def utf8_handler_def utf8_lead_def utf16_def)
qed

lemma decode_ascii:
  assumes "list_all (\<lambda>b. b \<le> 0x7F) bs" "bytes_needed d = 0"
  shows "decode d bs = (map ucast bs, if bs = [] then d else d\<lparr>bom_seen := True\<rparr>)"
  using assms
proof (induction bs arbitrary: d)
  case Nil
  show ?case by simp
next
  case (Cons b bs)
  have "decode (d\<lparr>bom_seen := True\<rparr>) bs
          = (map ucast bs, if bs = [] then d\<lparr>bom_seen := True\<rparr> else d\<lparr>bom_seen := True\<rparr>)"
    using Cons.IH [of "d\<lparr>bom_seen := True\<rparr>"] Cons.prems by simp
  with Cons.prems show ?case
    by (simp add: decode_byte_ascii)
qed

lemma body_text_ascii:
  assumes "list_all (\<lambda>b. b \<le> 0x7F) bs"
  shows "body_text bs = map ucast bs"
  using decode_ascii [OF assms, of new_decoder]
  by (simp add: body_text_def new_decoder_def)

section \<open>What the relay emits\<close>

lemma relay_line_content_chunks:
  "list_all is_content_chunk (fst (relay_line P r m k line))
   \<and> snd (relay_line P r m k line) = k + length (fst (relay_line P r m k line))
   \<and> length (fst (relay_line P r m k line)) \<le> 1"
  by (simp add: relay_line_eq content_chunk_def is_content_chunk_def
           split: option.splits json.splits)

lemma relay_lines_content_chunks:
  "list_all is_content_chunk (fst (relay_lines P r m k ls))
   \<and> snd (relay_lines P r m k ls) = k + length (fst (relay_lines P r m k ls))"
proof (induction ls arbitrary: k)
  case Nil
  show ?case by simp
next
  case (Cons l ls)
  obtain o1 k1 where 1: "relay_line P r m k l = (o1, k1)" by (cases "relay_line P r m k l")
  obtain o2 k2 where 2: "relay_lines P r m k1 ls = (o2, k2)" by (cases "relay_lines P r m k1 ls")
  from relay_line_content_chunks [of P r m k l] 1
  have a: "list_all is_content_chunk o1" "k1 = k + length o1" by simp_all
  from Cons.IH [of k1] 2
  have b: "list_all is_content_chunk o2" "k2 = k1 + length o2" by simp_all
  from a b 1 2 show ?case by simp
qed

section \<open>Claims about the stream\<close>

text \<open>
  Claim C5. For every stream, also one that emitted no content chunk, the output of the
  relay is what \<^verbatim>\<open>transform\<close> enqueued for the chunks, all of it content chunks, followed
  by what \<^verbatim>\<open>flush\<close> enqueues once at the end of the stream: one chunk with the empty
  delta and the finish reason \<^verbatim>\<open>stop\<close>, then the text \<^verbatim>\<open>data: [DONE]\<close> and a blank line.
\<close>

theorem finalize_once:
  "pipeThrough P requestId mdl k chunks =
     fst (pipe P requestId mdl (initial_state k) chunks)
     @ [SSE_data
          \<lparr>chunk_id = requestId,
           chunk_object = lit ''chat.completion.chunk'',
           chunk_created = created_at P (k + length (fst (pipe P requestId mdl (initial_state k) chunks))),
           chunk_model = mdl,
           chunk_choices =
             [\<lparr>choice_index = 0, delta_content = None, finish_reason = Some (lit ''stop'')\<rparr>]\<rparr>,
        SSE_text (lit ''data: [DONE]\<newline>\<newline>'')]
   \<and> list_all is_content_chunk (fst (pipe P requestId mdl (initial_state k) chunks))"
proof -
  have p: "pipe P requestId mdl (initial_state k) chunks =
     (let T = decode new_decoder (concat chunks);
          R = relay_lines P requestId mdl k (relay_frames new_decoder [] chunks)
      in (fst R, \<lparr>decoder = snd T, buffer = last (split_nl (fst T)), clock = snd R\<rparr>))"
    using pipe_frames [of "initial_state k" P requestId mdl chunks]
    by (simp add: initial_state_def)
  show ?thesis
    using relay_lines_content_chunks [of P requestId mdl k "relay_frames new_decoder [] chunks"]
    by (simp add: pipeThrough_def p Let_def flush_def)
qed

theorem finalize_once_witness:
  "pipeThrough example_platform (lit ''chatcmpl-1'') (JString model_name) 0 [] =
     [SSE_data
        \<lparr>chunk_id = lit ''chatcmpl-1'',
         chunk_object = lit ''chat.completion.chunk'',
         chunk_created = 1700000000,
         chunk_model = JString model_name,
         chunk_choices =
           [\<lparr>choice_index = 0, delta_content = None, finish_reason = Some (lit ''stop'')\<rparr>]\<rparr>,
      SSE_text (lit ''data: [DONE]\<newline>\<newline>'')]"
  using finalize_once [of example_platform "lit ''chatcmpl-1''" "JString model_name" 0 "[]"]
  by (simp add: created_at_def example_platform_def)

text \<open>
  Claim C2. However a byte sequence is cut into chunks, the reassembler hands the same
  lines to the loop as for the whole sequence in one chunk: the segments of the decoded
  text between newlines, without the last. The last segment, which no newline ends,
  stays in the buffer; the output of the stream is that of the lines followed by that of
  \<^verbatim>\<open>flush\<close>, which does not read the buffer.
\<close>

theorem rechunking:
  "relay_frames new_decoder [] chunks = relay_frames new_decoder [] [concat chunks]
   \<and> relay_frames new_decoder [] chunks
        = butlast (split_nl (fst (decode new_decoder (concat chunks))))
   \<and> buffer (snd (pipe P requestId mdl (initial_state k) chunks))
        = last (split_nl (fst (decode new_decoder (concat chunks))))
   \<and> pipeThrough P requestId mdl k chunks = pipeThrough P requestId mdl k [concat chunks]
   \<and> pipeThrough P requestId mdl k chunks =
        (let R = relay_lines P requestId mdl k
                   (butlast (split_nl (fst (decode new_decoder (concat chunks)))))
         in fst R @ flush P requestId mdl (initial_state (snd R)))"
proof -
  have f: "relay_frames new_decoder [] cs
             = butlast (split_nl (fst (decode new_decoder (concat cs))))" for cs
    using relay_frames_eq [of "[]" new_decoder cs] by simp
  have b: "buffer (snd (pipe P requestId mdl (initial_state k) chunks))
        = last (split_nl (fst (decode new_decoder (concat chunks))))"
    using pipe_frames [of "initial_state k" P requestId mdl chunks]
    by (simp add: initial_state_def Let_def)
  show ?thesis
    using f [of chunks] f [of "[concat chunks]"] b
    by (simp add: pipeThrough_frames)
qed


section \<open>The events of the examples\<close>

lemma parse_hi:
  "JSON_parse (trim (substring 5 (lit event_hi))) =
     Some (JObject [(lit ''choices'',
        JArray [JObject [(lit ''delta'', JObject [(lit ''content'', JString (lit ''Hi''))])]])])"
  by code_simp

lemma parse_there:
  "JSON_parse (trim (substring 5 (lit event_there))) =
     Some (JObject [(lit ''choices'',
        JArray [JObject [(lit ''delta'', JObject [(lit ''content'', JString (lit '' there''))])]])])"
  by code_simp

lemma parse_true:
  "JSON_parse (trim (substring 5 (lit event_true))) =
     Some (JObject [(lit ''choices'',
        JArray [JObject [(lit ''delta'', JObject [(lit ''content'', JBool True)])]])])"
  by code_simp

lemma event_content_of:
  "event_content (JObject [(lit ''choices'',
        JArray [JObject [(lit ''delta'', JObject [(lit ''content'', v)])]])]) = Some v"
  by (simp add: event_content_def opt_prop_def opt_index0_def lit_def)



lemma guard_hi:
  "startsWith (lit event_hi) (lit ''data:'')
   \<and> trim (substring 5 (lit event_hi)) \<noteq> lit ''[DONE]''"
  by code_simp

lemma guard_there:
  "startsWith (lit event_there) (lit ''data:'')
   \<and> trim (substring 5 (lit event_there)) \<noteq> lit ''[DONE]''"
  by code_simp

lemma guard_true:
  "startsWith (lit event_true) (lit ''data:'')
   \<and> trim (substring 5 (lit event_true)) \<noteq> lit ''[DONE]''"
  by code_simp

lemma done_line: "trim (substring 5 (lit ''data: [DONE]'')) = lit ''[DONE]''"
  by code_simp

lemma empty_line: "\<not> startsWith [] (lit ''data:'')"
  by (simp add: startsWith_def lit_def)

lemma lit_nonempty: "lit (c # cs) \<noteq> []"
  by (simp add: lit_def)

lemma aggregate_hi: "aggregate_line P acc (lit event_hi) = acc @ lit ''Hi''"
  using guard_hi by (simp add: aggregate_line_eq parse_hi event_content_of lit_nonempty)

lemma aggregate_there: "aggregate_line P acc (lit event_there) = acc @ lit '' there''"
  using guard_there by (simp add: aggregate_line_eq parse_there event_content_of lit_nonempty)

lemma aggregate_true: "aggregate_line P acc (lit event_true) = acc @ lit ''true''"
  using guard_true by (simp add: aggregate_line_eq parse_true event_content_of)

lemma relay_true: "relay_line P r m k (lit event_true) = ([], k)"
  using guard_true by (simp add: relay_line_eq parse_true event_content_of)

lemma valid_hi: "valid_event (lit event_hi)"
  by (simp add: valid_event_def parse_hi event_content_of)

lemma valid_there: "valid_event (lit event_there)"
  by (simp add: valid_event_def parse_there event_content_of)

lemma valid_done: "valid_event (lit ''data: [DONE]'')"
  by (simp add: valid_event_def done_line)

lemma valid_empty: "valid_event []"
  by (simp add: valid_event_def empty_line)

lemma split_hi_there:
  "split_nl (lit hi_there) =
     [lit event_hi, [], lit event_there, [], lit ''data: [DONE]'', [], []]"
  by (simp add: hi_there_def event_hi_def event_there_def lit_def NL_def)

lemma text_hi_there: "body_text (bytes_of hi_there) = lit hi_there"
  by (subst body_text_ascii) (simp_all add: hi_there_def bytes_of_def lit_def)

lemma text_hi: "body_text (bytes_of event_hi) = lit event_hi"
  by (subst body_text_ascii) (simp_all add: event_hi_def bytes_of_def lit_def)

lemma split_hi: "split_nl (lit event_hi) = [lit event_hi]"
  by (simp add: event_hi_def lit_def NL_def)

lemma aggregate_hi_there:
  "completion_content (transformNonStreamResponse P (lit hi_there) r m k) = [lit ''Hi there'']"
  by (simp add: completion_content_fold split_hi_there aggregate_hi aggregate_there
        aggregate_line_skip done_line empty_line)
     (simp add: lit_def)

section \<open>Claims about one line\<close>

text \<open>
  Claim C3. For one line the relay emits nothing or one chunk: nothing for a line
  without the prefix \<^verbatim>\<open>data:\<close>, for the payload \<^verbatim>\<open>[DONE]\<close> and for a payload that does
  not parse; for a parsed payload, one chunk with a null finish reason carrying
  \<^verbatim>\<open>choices[0].delta.content\<close> exactly when that is a string, the empty string included.
\<close>

theorem relay_line_emits:
  "fst (relay_line P requestId mdl k line) =
     (if \<not> startsWith line (lit ''data:'') then []
      else if trim (substring 5 line) = lit ''[DONE]'' then []
      else
        (case JSON_parse (trim (substring 5 line)) of
           None \<Rightarrow> []
         | Some data \<Rightarrow>
             (case event_content data of
                Some (JString content) \<Rightarrow>
                  [SSE_data
                     \<lparr>chunk_id = requestId,
                      chunk_object = lit ''chat.completion.chunk'',
                      chunk_created = created_at P k,
                      chunk_model = mdl,
                      chunk_choices =
                        [\<lparr>choice_index = 0, delta_content = Some content,
                          finish_reason = None\<rparr>]\<rparr>]
              | _ \<Rightarrow> [])))
   \<and> length (fst (relay_line P requestId mdl k line)) \<le> 1"
  by (simp add: relay_line_eq content_chunk_def split: option.splits json.splits)

theorem relay_line_emits_witness:
  "fst (relay_line example_platform (lit ''chatcmpl-1'') (JString model_name) 7
          (lit event_empty)) =
     [SSE_data
        \<lparr>chunk_id = lit ''chatcmpl-1'',
         chunk_object = lit ''chat.completion.chunk'',
         chunk_created = 1700000000,
         chunk_model = JString model_name,
         chunk_choices =
           [\<lparr>choice_index = 0, delta_content = Some [], finish_reason = None\<rparr>]\<rparr>]
   \<and> fst (relay_line example_platform (lit ''chatcmpl-1'') (JString model_name) 7
          (lit event_true)) = []
   \<and> fst (relay_line example_platform (lit ''chatcmpl-1'') (JString model_name) 7
          (lit event_bad)) = []"
proof -
  have g: "startsWith (lit event_empty) (lit ''data:'')
      \<and> trim (substring 5 (lit event_empty)) \<noteq> lit ''[DONE]''"
    by code_simp
  have p: "JSON_parse (trim (substring 5 (lit event_empty))) =
     Some (JObject [(lit ''choices'',
        JArray [JObject [(lit ''delta'', JObject [(lit ''content'', JString [])])]])])"
    by code_simp
  have b: "startsWith (lit event_bad) (lit ''data:'')
      \<and> trim (substring 5 (lit event_bad)) \<noteq> lit ''[DONE]''
      \<and> JSON_parse (trim (substring 5 (lit event_bad))) = None"
    by code_simp
  show ?thesis
    using relay_line_emits [of example_platform "lit ''chatcmpl-1''" "JString model_name" 7
        "lit event_empty"]
      relay_line_emits [of example_platform "lit ''chatcmpl-1''" "JString model_name" 7
        "lit event_true"]
      relay_line_emits [of example_platform "lit ''chatcmpl-1''" "JString model_name" 7
        "lit event_bad"]
      g p b guard_true
    by (simp add: event_content_of parse_true created_at_def example_platform_def)
qed

section \<open>Claims about streaming against aggregation\<close>

text \<open>
  Claim C1, amended. For every upstream body whose lines are valid events (the content
  of every parsed \<^verbatim>\<open>data:\<close> payload is a string or absent) and for every way of cutting
  the body into chunks, the \<^verbatim>\<open>message.content\<close> that the aggregator returns for the whole
  body is the concatenation of the \<^verbatim>\<open>delta.content\<close> values that the relay emits, followed
  by the content of the segment after the last newline, which the relay keeps in its
  buffer and never emits. The two are equal when the body is empty or ends with a
  newline.
\<close>

theorem streaming_agrees_with_aggregate:
  assumes "concat chunks = bytes"
    and "\<forall>line \<in> set (split_nl (body_text bytes)). valid_event line"
  shows "completion_content (transformNonStreamResponse P (body_text bytes) requestId mdl k') =
           [concat (delta_contents (pipeThrough P requestId mdl k chunks))
              @ concat (delta_contents
                  (fst (relay_line P requestId mdl k (last (split_nl (body_text bytes))))))]
   \<and> (bytes = [] \<or> last bytes = 0x0A \<longrightarrow>
        completion_content (transformNonStreamResponse P (body_text bytes) requestId mdl k') =
          [concat (delta_contents (pipeThrough P requestId mdl k chunks))])"
proof -
  have general:
    "completion_content (transformNonStreamResponse P (body_text bytes) requestId mdl k') =
           [concat (delta_contents (pipeThrough P requestId mdl k chunks))
              @ concat (delta_contents
                  (fst (relay_line P requestId mdl k (last (split_nl (body_text bytes))))))]"
    using relay_agrees_up_to_tail [of chunks P requestId mdl k' k] assms by simp
  have "last (split_nl (body_text bytes)) = []" if "bytes = [] \<or> last bytes = 0x0A"
  proof (cases "bytes = []")
    case True
    then show ?thesis by (simp add: body_text_def new_decoder_def)
  next
    case False
    with that obtain t where "body_text bytes = t @ [NL]"
      using body_text_newline by blast
    then show ?thesis by (simp add: split_nl_snoc_newline)
  qed
  moreover have "relay_line P requestId mdl k [] = ([], k)"
    by (rule relay_line_skip) (simp add: startsWith_def lit_def)
  ultimately show ?thesis
    using general by simp
qed

theorem streaming_agrees_with_aggregate_witness:
  "completion_content
     (transformNonStreamResponse example_platform (body_text (bytes_of hi_there))
        (lit ''chatcmpl-1'') (JString model_name) 0)
   = [concat (delta_contents
        (pipeThrough example_platform (lit ''chatcmpl-1'') (JString model_name) 0
           [take 10 (bytes_of hi_there), drop 10 (bytes_of hi_there)]))]
   \<and> completion_content
     (transformNonStreamResponse example_platform (body_text (bytes_of hi_there))
        (lit ''chatcmpl-1'') (JString model_name) 0) = [lit ''Hi there'']"
proof -
  have 1: "bytes_of hi_there = [] \<or> last (bytes_of hi_there) = 0x0A"
    by (simp add: hi_there_def bytes_of_def)
  have 2: "concat [take 10 (bytes_of hi_there), drop 10 (bytes_of hi_there)] = bytes_of hi_there"
    by simp
  have 3: "\<forall>line \<in> set (split_nl (body_text (bytes_of hi_there))). valid_event line"
    by (simp add: text_hi_there split_hi_there valid_hi valid_there valid_done valid_empty)
  from streaming_agrees_with_aggregate [OF 2 3, of example_platform
        "lit ''chatcmpl-1''" "JString model_name" 0 0] 1
  have "completion_content
     (transformNonStreamResponse example_platform (body_text (bytes_of hi_there))
        (lit ''chatcmpl-1'') (JString model_name) 0)
   = [concat (delta_contents
        (pipeThrough example_platform (lit ''chatcmpl-1'') (JString model_name) 0
           [take 10 (bytes_of hi_there), drop 10 (bytes_of hi_there)]))]"
    by blast
  then show ?thesis
    by (simp add: text_hi_there aggregate_hi_there)
qed

text \<open>
  Claim C1 as stated fails on a body whose last event has no newline after it: the body
  is one valid event, the relay keeps it in its buffer and emits no content, the
  aggregator returns its content \<^verbatim>\<open>Hi\<close>.
\<close>

theorem unterminated_event_counterexample:
  "valid_event (lit event_hi)
   \<and> split_nl (body_text (bytes_of event_hi)) = [lit event_hi]
   \<and> delta_contents
        (pipeThrough example_platform (lit ''chatcmpl-1'') (JString model_name) 0
           [bytes_of event_hi]) = []
   \<and> completion_content
        (transformNonStreamResponse example_platform (body_text (bytes_of event_hi))
           (lit ''chatcmpl-1'') (JString model_name) 0) = [lit ''Hi'']"
proof -
  have "relay_frames new_decoder [] [bytes_of event_hi] = []"
    using relay_frames_eq [of "[]" new_decoder "[bytes_of event_hi]"] text_hi split_hi
      body_text_split [of "bytes_of event_hi"]
    by (auto simp: split_nl_append_no_newline)
  then have "delta_contents
        (pipeThrough example_platform (lit ''chatcmpl-1'') (JString model_name) 0
           [bytes_of event_hi]) = []"
    by (simp add: stream_content_frames)
  moreover have "completion_content
        (transformNonStreamResponse example_platform (body_text (bytes_of event_hi))
           (lit ''chatcmpl-1'') (JString model_name) 0) = [lit ''Hi'']"
    by (simp add: completion_content_fold text_hi split_hi aggregate_hi)
  ultimately show ?thesis
    by (simp add: valid_hi text_hi split_hi)
qed

text \<open>
  Claim C4 at a body whose only event has the content \<^verbatim>\<open>true\<close>, not a string: the
  filtering of the relay extracts no content string from its lines, and the aggregator
  returns the content \<^verbatim>\<open>true\<close>, the conversion of the value to a string, where the claim
  gives the empty string. On the body of the specification's example the aggregator
  returns \<^verbatim>\<open>Hi there\<close> (\<open>aggregate_hi_there\<close>), and on valid events it returns what the
  relay's filtering extracts (\<open>aggregate_lines_valid\<close>).
\<close>

theorem aggregate_non_string_content:
  "completion_content
     (transformNonStreamResponse P (lit event_true @ [NL]) requestId mdl k) = [lit ''true'']
   \<and> fst (relay_lines P requestId mdl k' (split_nl (lit event_true @ [NL]))) = []"
proof -
  have s: "split_nl (lit event_true @ [NL]) = [lit event_true, []]"
    by (simp add: event_true_def lit_def NL_def)
  have "relay_line P requestId mdl k'' [] = ([], k'')" for k''
    by (rule relay_line_skip) (simp add: empty_line)
  then show ?thesis
    by (simp add: completion_content_fold s aggregate_true aggregate_line_skip empty_line
          relay_true)
qed

section \<open>Skipped lines\<close>

lemma skipped_line:
  assumes "\<And>k. relay_line P r m k l = ([], k)" and "\<And>acc. aggregate_line P acc l = acc"
  shows "relay_lines P r m k (pre @ l # post) = relay_lines P r m k (pre @ post)"
    and "foldl (aggregate_line P) acc (pre @ l # post) = foldl (aggregate_line P) acc (pre @ post)"
    and "split_nl fullBody = pre @ l # post \<Longrightarrow> split_nl fullBody' = pre @ post \<Longrightarrow>
         transformNonStreamResponse P fullBody r m k = transformNonStreamResponse P fullBody' r m k"
    and "relay_frames new_decoder [] chunks = pre @ l # post \<Longrightarrow>
         relay_frames new_decoder [] chunks' = pre @ post \<Longrightarrow>
         pipeThrough P r m k chunks = pipeThrough P r m k chunks'"
proof -
  show 1: "relay_lines P r m k (pre @ l # post) = relay_lines P r m k (pre @ post)"
    by (simp add: relay_lines_append assms(1) split: prod.splits)
  show 2: "foldl (aggregate_line P) acc (pre @ l # post) = foldl (aggregate_line P) acc (pre @ post)"
    by (simp add: assms(2))
  show "transformNonStreamResponse P fullBody r m k = transformNonStreamResponse P fullBody' r m k"
    if "split_nl fullBody = pre @ l # post" "split_nl fullBody' = pre @ post"
    using that by (simp add: transformNonStreamResponse_def assms(2))
  show "pipeThrough P r m k chunks = pipeThrough P r m k chunks'"
    if "relay_frames new_decoder [] chunks = pre @ l # post"
       "relay_frames new_decoder [] chunks' = pre @ post"
    using that 1 by (simp add: pipeThrough_frames)
qed

lemma frames_ascii:
  assumes "list_all (\<lambda>b. b \<le> 0x7F) (concat chunks)"
  shows "relay_frames new_decoder [] chunks = butlast (split_nl (map ucast (concat chunks)))"
  using relay_frames_eq [of "[]" new_decoder chunks] decode_ascii [OF assms, of new_decoder]
  by (simp add: new_decoder_def)

lemma split_stream_bad:
  "split_nl (lit stream_bad) = [lit event_hi, lit event_bad, lit event_there, []]"
  by (simp add: stream_bad_def event_hi_def event_bad_def event_there_def lit_def NL_def)

lemma split_stream_done:
  "split_nl (lit stream_done) = [lit event_hi, lit ''data: [DONE]'', lit event_there, []]"
  by (simp add: stream_done_def event_hi_def event_there_def lit_def NL_def)

lemma split_stream_plain:
  "split_nl (lit stream_plain) = [lit event_hi, lit event_there, []]"
  by (simp add: stream_plain_def event_hi_def event_there_def lit_def NL_def)

lemma frames_stream_bad:
  "relay_frames new_decoder [] [take 20 (bytes_of stream_bad), drop 20 (bytes_of stream_bad)]
     = [lit event_hi, lit event_bad, lit event_there]"
proof -
  have "map ucast (bytes_of stream_bad) = lit stream_bad"
    by (simp add: stream_bad_def bytes_of_def lit_def)
  moreover have "list_all (\<lambda>b. b \<le> 0x7F) (bytes_of stream_bad)"
    by (simp add: stream_bad_def bytes_of_def)
  ultimately show ?thesis
    by (simp add: frames_ascii split_stream_bad del: relay_frames.simps)
qed

lemma frames_stream_done:
  "relay_frames new_decoder [] [take 20 (bytes_of stream_done), drop 20 (bytes_of stream_done)]
     = [lit event_hi, lit ''data: [DONE]'', lit event_there]"
proof -
  have "map ucast (bytes_of stream_done) = lit stream_done"
    by (simp add: stream_done_def bytes_of_def lit_def)
  moreover have "list_all (\<lambda>b. b \<le> 0x7F) (bytes_of stream_done)"
    by (simp add: stream_done_def bytes_of_def)
  ultimately show ?thesis
    by (simp add: frames_ascii split_stream_done del: relay_frames.simps)
qed

lemma frames_stream_plain:
  "relay_frames new_decoder [] [bytes_of stream_plain] = [lit event_hi, lit event_there]"
proof -
  have "map ucast (bytes_of stream_plain) = lit stream_plain"
    by (simp add: stream_plain_def bytes_of_def lit_def)
  moreover have "list_all (\<lambda>b. b \<le> 0x7F) (bytes_of stream_plain)"
    by (simp add: stream_plain_def bytes_of_def)
  ultimately show ?thesis
    by (simp add: frames_ascii split_stream_plain del: relay_frames.simps)
qed

lemma bad_line:
  "startsWith (lit event_bad) (lit ''data:'')
   \<and> JSON_parse (trim (substring 5 (lit event_bad))) = None"
  by code_simp

lemma done_prefix: "startsWith (lit ''data: [DONE]'') (lit ''data:'')"
  by code_simp

lemma relay_hi: "relay_line P r m k (lit event_hi) = ([content_chunk P r m k (lit ''Hi'')], Suc k)"
  using guard_hi by (simp add: relay_line_eq parse_hi event_content_of)

lemma relay_there:
  "relay_line P r m k (lit event_there) = ([content_chunk P r m k (lit '' there'')], Suc k)"
  using guard_there by (simp add: relay_line_eq parse_there event_content_of)

lemma stream_plain_contents:
  "delta_contents (pipeThrough P r m k [bytes_of stream_plain]) = [lit ''Hi'', lit '' there'']"
  by (simp add: stream_content_frames frames_stream_plain relay_hi relay_there content_chunk_def
        del: relay_frames.simps)

lemma master_key: "API_MASTER_KEY example_config = lit ''1''"
  by (simp add: example_config_def CONFIG_def env_or_def)

lemma authorized_begins_with_request_id:
  assumes "http_method req \<noteq> lit ''OPTIONS''"
    and "authorization req = Some h" "startsWith h (lit ''Bearer '')"
    and "substring 7 h = API_MASTER_KEY cfg"
  shows "\<exists>effects. fst (handleApi P cfg W req k) = Generate_request_id # effects"
proof -
  have "h \<noteq> []" using assms(3) by (auto simp: startsWith_def lit_def)
  with assms show ?thesis
    by (auto simp: handleApi_def Let_def split: prod.splits)
qed

lemma authorized_chat_trace:
  "handleApi example_platform example_config example_world
       (chat_request (Some (lit ''Bearer 1''))) 0
     = ([Generate_request_id, Read_request_json, Transform_request, Call_upstream],
        \<lparr>status = 500,
         body = Error_body (Internal_Error NetworkError) (lit ''api_error'')
                  (lit ''internal_server_error'')\<rparr>)"
proof -
  have t: "body_text (bytes_of ''{\"messages\":[]}'') = lit ''{\"messages\":[]}''"
    by (subst body_text_ascii) (simp_all add: bytes_of_def lit_def)
  have j: "JSON_parse (lit ''{\"messages\":[]}'') = Some (JObject [(lit ''messages'', JArray [])])"
    by code_simp
  have b: "startsWith (lit ''Bearer 1'') (lit ''Bearer '')"
      "substring 7 (lit ''Bearer 1'') = lit ''1''" "lit ''Bearer 1'' \<noteq> []"
      "lit ''POST'' \<noteq> lit ''OPTIONS''"
      "lit ''/v1/chat/completions'' \<noteq> lit ''/v1/models''"
    by (simp_all add: startsWith_def substring_def lit_def)
  show ?thesis
    by (simp add: handleApi_def handleChatCompletions_def chat_request_def b master_key
          t j transformRequestToUpstream_def example_world_def createErrorResponse_def)
qed

section \<open>The content strings of lines\<close>

lemma relay_line_delta:
  "delta_contents (fst (relay_line P r m k l)) = (case line_delta l of None \<Rightarrow> [] | Some s \<Rightarrow> [s])"
  by (simp add: relay_line_eq line_delta_def content_chunk_def split: option.splits json.splits)

lemma line_deltas_Cons:
  "line_deltas (l # ls) = (case line_delta l of None \<Rightarrow> [] | Some s \<Rightarrow> [s]) @ line_deltas ls"
  by (simp add: line_deltas_def List.map_filter_simps split: option.splits)

lemma line_deltas_append: "line_deltas (xs @ ys) = line_deltas xs @ line_deltas ys"
  by (induction xs) (simp_all add: line_deltas_Cons, simp add: line_deltas_def List.map_filter_simps)

lemma relay_lines_deltas:
  "delta_contents (fst (relay_lines P r m k ls)) = line_deltas ls"
proof (induction ls arbitrary: k)
  case Nil
  show ?case by (simp add: line_deltas_def List.map_filter_simps)
next
  case (Cons l ls)
  obtain o1 k1 where 1: "relay_line P r m k l = (o1, k1)" by (cases "relay_line P r m k l")
  obtain o2 k2 where 2: "relay_lines P r m k1 ls = (o2, k2)" by (cases "relay_lines P r m k1 ls")
  from relay_line_delta [of P r m k l] 1 Cons.IH [of k1] 2 show ?case
    by (simp add: delta_contents_append line_deltas_Cons)
qed

lemma aggregate_lines_content:
  assumes "\<forall>l \<in> set ls. valid_event l"
  shows "foldl (aggregate_line P) acc ls = acc @ lines_content ls"
  using aggregate_lines_valid [OF assms, of P acc "[]" JNull 0]
  by (simp add: relay_lines_deltas lines_content_def)

lemma lines_content_append: "lines_content (xs @ ys) = lines_content xs @ lines_content ys"
  by (simp add: lines_content_def line_deltas_append)

lemma line_delta_skipped:
  assumes "\<not> startsWith line (lit ''data:'') \<or> trim (substring 5 line) = lit ''[DONE]''
           \<or> JSON_parse (trim (substring 5 line)) = None"
  shows "line_delta line = None"
  using assms by (auto simp: line_delta_def)

lemma valid_skipped:
  assumes "\<not> startsWith line (lit ''data:'') \<or> trim (substring 5 line) = lit ''[DONE]''
           \<or> JSON_parse (trim (substring 5 line)) = None"
  shows "valid_event line"
  using assms by (auto simp: valid_event_def)

lemma delta_hi: "line_delta (lit event_hi) = Some (lit ''Hi'')"
  using guard_hi by (simp add: line_delta_def parse_hi event_content_of)

lemma delta_there: "line_delta (lit event_there) = Some (lit '' there'')"
  using guard_there by (simp add: line_delta_def parse_there event_content_of)

lemma delta_empty_line: "line_delta [] = None"
  by (simp add: line_delta_skipped empty_line)

lemma hi_there_concat: "lit ''Hi'' @ lit '' there'' = lit ''Hi there''"
  by (simp add: lit_def)

section \<open>Claims about skipped lines\<close>

text \<open>
  Claim C6. A \<^verbatim>\<open>data:\<close> line whose payload is not JSON is skipped by the relay and by the
  aggregator: it raises no error, emits nothing and leaves the accumulator as it is, and
  the lines before and after it give the output they give without it, in the two loops,
  in the aggregator on a whole body and in the relay on a whole stream.
\<close>

theorem malformed_line_skipped:
  assumes "startsWith bad (lit ''data:'')"
    and "JSON_parse (trim (substring 5 bad)) = None"
  shows "relay_line P requestId mdl k bad = ([], k)
    \<and> aggregate_line P acc bad = acc
    \<and> relay_lines P requestId mdl k (pre @ bad # post) = relay_lines P requestId mdl k (pre @ post)
    \<and> foldl (aggregate_line P) acc (pre @ bad # post) = foldl (aggregate_line P) acc (pre @ post)
    \<and> (split_nl fullBody = pre @ bad # post \<and> split_nl fullBody' = pre @ post \<longrightarrow>
         transformNonStreamResponse P fullBody requestId mdl k
           = transformNonStreamResponse P fullBody' requestId mdl k)
    \<and> (relay_frames new_decoder [] chunks = pre @ bad # post
         \<and> relay_frames new_decoder [] chunks' = pre @ post \<longrightarrow>
         pipeThrough P requestId mdl k chunks = pipeThrough P requestId mdl k chunks')"
proof -
  have r: "relay_line P requestId mdl j bad = ([], j)" for j
    using assms(2) by (simp add: relay_line_skip)
  have a: "aggregate_line P c bad = c" for c
    using assms(2) by (simp add: aggregate_line_skip)
  from skipped_line [of P requestId mdl bad, OF r a] r a show ?thesis
    by blast
qed

theorem malformed_line_skipped_witness:
  "relay_lines example_platform (lit ''chatcmpl-1'') (JString model_name) 0
       [lit event_hi, lit event_bad, lit event_there]
     = relay_lines example_platform (lit ''chatcmpl-1'') (JString model_name) 0
         [lit event_hi, lit event_there]
   \<and> transformNonStreamResponse example_platform (lit stream_bad)
        (lit ''chatcmpl-1'') (JString model_name) 0
     = transformNonStreamResponse example_platform (lit stream_plain)
         (lit ''chatcmpl-1'') (JString model_name) 0
   \<and> pipeThrough example_platform (lit ''chatcmpl-1'') (JString model_name) 0
        [take 20 (bytes_of stream_bad), drop 20 (bytes_of stream_bad)]
     = pipeThrough example_platform (lit ''chatcmpl-1'') (JString model_name) 0
         [bytes_of stream_plain]
   \<and> delta_contents
        (pipeThrough example_platform (lit ''chatcmpl-1'') (JString model_name) 0
           [take 20 (bytes_of stream_bad), drop 20 (bytes_of stream_bad)])
     = [lit ''Hi'', lit '' there'']"
proof -
  note b = bad_line [THEN conjunct1] bad_line [THEN conjunct2]
  have 1: "relay_lines example_platform (lit ''chatcmpl-1'') (JString model_name) 0
       ([lit event_hi] @ lit event_bad # [lit event_there])
     = relay_lines example_platform (lit ''chatcmpl-1'') (JString model_name) 0
         ([lit event_hi] @ [lit event_there])"
    using malformed_line_skipped [OF b] by blast
  have 2: "transformNonStreamResponse example_platform (lit stream_bad)
        (lit ''chatcmpl-1'') (JString model_name) 0
     = transformNonStreamResponse example_platform (lit stream_plain)
         (lit ''chatcmpl-1'') (JString model_name) 0"
    using malformed_line_skipped [OF b, of example_platform "lit ''chatcmpl-1''"
        "JString model_name" 0 "[]" "[lit event_hi]" "[lit event_there, []]"
        "lit stream_bad" "lit stream_plain"]
    by (simp add: split_stream_bad split_stream_plain)
  have 3: "pipeThrough example_platform (lit ''chatcmpl-1'') (JString model_name) 0
        [take 20 (bytes_of stream_bad), drop 20 (bytes_of stream_bad)]
     = pipeThrough example_platform (lit ''chatcmpl-1'') (JString model_name) 0
         [bytes_of stream_plain]"
    using malformed_line_skipped [OF b, of example_platform "lit ''chatcmpl-1''"
        "JString model_name" 0 "[]" "[lit event_hi]" "[lit event_there]" "[]" "[]"
        "[take 20 (bytes_of stream_bad), drop 20 (bytes_of stream_bad)]"
        "[bytes_of stream_plain]"]
    by (simp add: frames_stream_bad frames_stream_plain del: relay_frames.simps)
  show ?thesis
    using 1 2 3 by (simp add: stream_plain_contents del: relay_frames.simps relay_lines.simps)
qed


text \<open>
  Claim C8. A \<^verbatim>\<open>data: [DONE]\<close> line does not end the input: the relay and the aggregator
  skip it and go on with the lines after it. The output is that of the lines without the
  marker, and it holds the content of the lines before and after it: the relay emits
  their content strings in line order, and for valid lines the \<^verbatim>\<open>message.content\<close> of the
  aggregator is the concatenation of the content strings before and after the marker.
\<close>

theorem done_line_skipped:
  assumes "startsWith marker (lit ''data:'')"
    and "trim (substring 5 marker) = lit ''[DONE]''"
  shows "relay_line P requestId mdl k marker = ([], k)
    \<and> aggregate_line P acc marker = acc
    \<and> relay_lines P requestId mdl k (pre @ marker # post) = relay_lines P requestId mdl k (pre @ post)
    \<and> foldl (aggregate_line P) acc (pre @ marker # post) = foldl (aggregate_line P) acc (pre @ post)
    \<and> (split_nl fullBody = pre @ marker # post \<and> split_nl fullBody' = pre @ post \<longrightarrow>
         transformNonStreamResponse P fullBody requestId mdl k
           = transformNonStreamResponse P fullBody' requestId mdl k)
    \<and> (relay_frames new_decoder [] chunks = pre @ marker # post
         \<and> relay_frames new_decoder [] chunks' = pre @ post \<longrightarrow>
         pipeThrough P requestId mdl k chunks = pipeThrough P requestId mdl k chunks')
    \<and> delta_contents (fst (relay_lines P requestId mdl k (pre @ marker # post)))
         = line_deltas pre @ line_deltas post
    \<and> (relay_frames new_decoder [] chunks = pre @ marker # post \<longrightarrow>
         delta_contents (pipeThrough P requestId mdl k chunks)
           = line_deltas pre @ line_deltas post)
    \<and> ((\<forall>l \<in> set (pre @ post). valid_event l) \<longrightarrow>
         foldl (aggregate_line P) acc (pre @ marker # post)
           = acc @ lines_content pre @ lines_content post)
    \<and> (split_nl fullBody = pre @ marker # post \<and> (\<forall>l \<in> set (pre @ post). valid_event l) \<longrightarrow>
         completion_content (transformNonStreamResponse P fullBody requestId mdl k)
           = [lines_content pre @ lines_content post])"
proof -
  have r: "relay_line P requestId mdl j marker = ([], j)" for j
    using assms(2) by (simp add: relay_line_skip)
  have a: "aggregate_line P c marker = c" for c
    using assms(2) by (simp add: aggregate_line_skip)
  have m: "line_delta marker = None"
    using assms(2) by (simp add: line_delta_skipped)
  have d: "line_deltas (pre @ marker # post) = line_deltas pre @ line_deltas post"
    by (simp add: line_deltas_append line_deltas_Cons m)
  have 1: "delta_contents (fst (relay_lines P requestId mdl k (pre @ marker # post)))
         = line_deltas pre @ line_deltas post"
    by (simp only: relay_lines_deltas d)
  have 2: "delta_contents (pipeThrough P requestId mdl k chunks)
           = line_deltas pre @ line_deltas post"
    if "relay_frames new_decoder [] chunks = pre @ marker # post"
    using that by (simp only: stream_content_frames relay_lines_deltas d)
  have 3: "foldl (aggregate_line P) acc (pre @ marker # post)
           = acc @ lines_content pre @ lines_content post"
    if "\<forall>l \<in> set (pre @ post). valid_event l"
  proof -
    have "foldl (aggregate_line P) acc (pre @ marker # post)
            = foldl (aggregate_line P) acc (pre @ post)"
      by (simp add: a)
    then show ?thesis
      using aggregate_lines_content [OF that, of P acc] by (simp add: lines_content_append)
  qed
  have 4: "completion_content (transformNonStreamResponse P fullBody requestId mdl k)
           = [lines_content pre @ lines_content post]"
    if "split_nl fullBody = pre @ marker # post" "\<forall>l \<in> set (pre @ post). valid_event l"
  proof -
    have "foldl (aggregate_line P) [] (pre @ marker # post)
            = foldl (aggregate_line P) [] (pre @ post)"
      by (simp add: a)
    then show ?thesis
      using aggregate_lines_content [OF that(2), of P "[]"] that(1)
      by (simp add: completion_content_fold lines_content_append)
  qed
  from skipped_line [of P requestId mdl marker, OF r a] r a 1 2 3 4 show ?thesis
    by blast
qed

theorem done_line_skipped_witness:
  "relay_lines example_platform (lit ''chatcmpl-1'') (JString model_name) 0
       [lit event_hi, lit ''data: [DONE]'', lit event_there]
     = relay_lines example_platform (lit ''chatcmpl-1'') (JString model_name) 0
         [lit event_hi, lit event_there]
   \<and> transformNonStreamResponse example_platform (lit stream_done)
        (lit ''chatcmpl-1'') (JString model_name) 0
     = transformNonStreamResponse example_platform (lit stream_plain)
         (lit ''chatcmpl-1'') (JString model_name) 0
   \<and> pipeThrough example_platform (lit ''chatcmpl-1'') (JString model_name) 0
        [take 20 (bytes_of stream_done), drop 20 (bytes_of stream_done)]
     = pipeThrough example_platform (lit ''chatcmpl-1'') (JString model_name) 0
         [bytes_of stream_plain]
   \<and> delta_contents
        (pipeThrough example_platform (lit ''chatcmpl-1'') (JString model_name) 0
           [take 20 (bytes_of stream_done), drop 20 (bytes_of stream_done)])
     = [lit ''Hi'', lit '' there'']
   \<and> completion_content
        (transformNonStreamResponse example_platform (lit stream_done)
           (lit ''chatcmpl-1'') (JString model_name) 0)
     = [lit ''Hi there'']"
proof -
  note d = done_prefix done_line
  have 1: "relay_lines example_platform (lit ''chatcmpl-1'') (JString model_name) 0
       ([lit event_hi] @ lit ''data: [DONE]'' # [lit event_there])
     = relay_lines example_platform (lit ''chatcmpl-1'') (JString model_name) 0
         ([lit event_hi] @ [lit event_there])"
    using done_line_skipped [OF d] by blast
  have 2: "transformNonStreamResponse example_platform (lit stream_done)
        (lit ''chatcmpl-1'') (JString model_name) 0
     = transformNonStreamResponse example_platform (lit stream_plain)
         (lit ''chatcmpl-1'') (JString model_name) 0"
    using done_line_skipped [OF d, of example_platform "lit ''chatcmpl-1''"
        "JString model_name" 0 "[]" "[lit event_hi]" "[lit event_there, []]"
        "lit stream_done" "lit stream_plain"]
    by (simp add: split_stream_done split_stream_plain)
  have 3: "pipeThrough example_platform (lit ''chatcmpl-1'') (JString model_name) 0
        [take 20 (bytes_of stream_done), drop 20 (bytes_of stream_done)]
     = pipeThrough example_platform (lit ''chatcmpl-1'') (JString model_name) 0
         [bytes_of stream_plain]"
    using done_line_skipped [OF d, of example_platform "lit ''chatcmpl-1''"
        "JString model_name" 0 "[]" "[lit event_hi]" "[lit event_there]" "[]" "[]"
        "[take 20 (bytes_of stream_done), drop 20 (bytes_of stream_done)]"
        "[bytes_of stream_plain]"]
    by (simp add: frames_stream_done frames_stream_plain del: relay_frames.simps)
  have v: "\<forall>l \<in> set ([lit event_hi] @ [lit event_there, []]). valid_event l"
    by (simp add: valid_hi valid_there valid_empty)
  have c: "lines_content [lit event_hi] = lit ''Hi''"
      "lines_content [lit event_there, []] = lit '' there''"
      "line_deltas [lit event_hi] = [lit ''Hi'']"
      "line_deltas [lit event_there] = [lit '' there'']"
    by (simp_all add: lines_content_def line_deltas_def List.map_filter_simps delta_hi delta_there
          delta_empty_line)
  have 4: "delta_contents
        (pipeThrough example_platform (lit ''chatcmpl-1'') (JString model_name) 0
           [take 20 (bytes_of stream_done), drop 20 (bytes_of stream_done)])
     = [lit ''Hi'', lit '' there'']"
    using done_line_skipped [OF d, of example_platform "lit ''chatcmpl-1''"
        "JString model_name" 0 "[]" "[lit event_hi]" "[lit event_there]" "[]" "[]"
        "[take 20 (bytes_of stream_done), drop 20 (bytes_of stream_done)]" "[]"]
      frames_stream_done
    by (simp add: c del: relay_frames.simps)
  have 5: "completion_content
        (transformNonStreamResponse example_platform (lit stream_done)
           (lit ''chatcmpl-1'') (JString model_name) 0)
     = [lit ''Hi there'']"
    using done_line_skipped [OF d, of example_platform "lit ''chatcmpl-1''"
        "JString model_name" 0 "[]" "[lit event_hi]" "[lit event_there, []]"
        "lit stream_done" "[]" "[]" "[]"] v split_stream_done
    by (simp add: c hi_there_concat)
  show ?thesis
    using 1 2 3 4 5 by (simp del: relay_frames.simps relay_lines.simps)
qed

section \<open>Claims about the request adapter and the handler\<close>




text \<open>
  Claim C10. A request to a path under \<^verbatim>\<open>/v1/\<close> whose method is not OPTIONS and whose
  Authorization header is absent, does not start with \<^verbatim>\<open>Bearer \<close>, or carries another
  token than the master key is answered with status 401 or 403, and nothing was done
  before: no request id, no transformation, no upstream call. (An authorized request
  begins with the request id, \<open>authorized_begins_with_request_id\<close>.)
\<close>

theorem unauthorized_before_effects:
  assumes "startsWith (pathname req) (lit ''/v1/'')"
    and "http_method req \<noteq> lit ''OPTIONS''"
    and "authorization req = None
         \<or> (\<exists>h. authorization req = Some h
               \<and> (\<not> startsWith h (lit ''Bearer '') \<or> substring 7 h \<noteq> API_MASTER_KEY cfg))"
  shows "serve P cfg W req k = handleApi P cfg W req k
    \<and> handleApi P cfg W req k =
        ([], if (case authorization req of
                   None \<Rightarrow> True
                 | Some h \<Rightarrow> \<not> startsWith h (lit ''Bearer ''))
             then createErrorResponse Missing_Bearer_Token 401 (lit ''unauthorized'')
             else createErrorResponse Invalid_API_Key 403 (lit ''invalid_api_key''))
    \<and> (status (snd (handleApi P cfg W req k)) = 401
        \<or> status (snd (handleApi P cfg W req k)) = 403)"
proof -
  have p: "pathname req \<noteq> lit ''/''" "pathname req \<noteq> lit ''/health''"
    using assms(1) by (auto simp: startsWith_def lit_def)
  have e: "\<not> startsWith [] (lit ''Bearer '')"
    by (simp add: startsWith_def lit_def)
  have s: "serve P cfg W req k = handleApi P cfg W req k"
    using p assms(1) by (simp add: serve_def)
  have h: "handleApi P cfg W req k =
        ([], if (case authorization req of
                   None \<Rightarrow> True
                 | Some h \<Rightarrow> \<not> startsWith h (lit ''Bearer ''))
             then createErrorResponse Missing_Bearer_Token 401 (lit ''unauthorized'')
             else createErrorResponse Invalid_API_Key 403 (lit ''invalid_api_key''))"
    using assms(2,3) e by (auto simp: handleApi_def Let_def)
  show ?thesis
    using s h by (simp add: createErrorResponse_def)
qed

theorem unauthorized_before_effects_witness:
  "serve example_platform example_config example_world
       (chat_request (Some (lit ''Bearer 2''))) 0
     = ([], \<lparr>status = 403,
             body = Error_body Invalid_API_Key (lit ''api_error'') (lit ''invalid_api_key'')\<rparr>)
   \<and> serve example_platform example_config example_world (chat_request None) 0
     = ([], \<lparr>status = 401,
             body = Error_body Missing_Bearer_Token (lit ''api_error'') (lit ''unauthorized'')\<rparr>)
   \<and> serve example_platform example_config example_world
       (chat_request (Some (lit ''1''))) 0
     = ([], \<lparr>status = 401,
             body = Error_body Missing_Bearer_Token (lit ''api_error'') (lit ''unauthorized'')\<rparr>)"
proof -
  have p: "startsWith (pathname (chat_request h)) (lit ''/v1/'')" for h
    by (simp add: chat_request_def startsWith_def lit_def)
  have m: "http_method (chat_request h) \<noteq> lit ''OPTIONS''" for h
    by (simp add: chat_request_def lit_def)
  have b: "startsWith (lit ''Bearer 2'') (lit ''Bearer '')"
      "substring 7 (lit ''Bearer 2'') \<noteq> lit ''1''"
      "\<not> startsWith (lit ''1'') (lit ''Bearer '')"
    by (simp_all add: startsWith_def substring_def lit_def)
  have 1: "authorization (chat_request (Some (lit ''Bearer 2''))) = None
         \<or> (\<exists>h. authorization (chat_request (Some (lit ''Bearer 2''))) = Some h
               \<and> (\<not> startsWith h (lit ''Bearer '')
                    \<or> substring 7 h \<noteq> API_MASTER_KEY example_config))"
    using b by (simp add: chat_request_def master_key)
  have 2: "authorization (chat_request None) = None
         \<or> (\<exists>h. authorization (chat_request None) = Some h
               \<and> (\<not> startsWith h (lit ''Bearer '')
                    \<or> substring 7 h \<noteq> API_MASTER_KEY example_config))"
    by (simp add: chat_request_def)
  have 3: "authorization (chat_request (Some (lit ''1''))) = None
         \<or> (\<exists>h. authorization (chat_request (Some (lit ''1''))) = Some h
               \<and> (\<not> startsWith h (lit ''Bearer '')
                    \<or> substring 7 h \<noteq> API_MASTER_KEY example_config))"
    using b by (simp add: chat_request_def)
  show ?thesis
    using unauthorized_before_effects [OF p m 1, of example_platform example_world 0]
      unauthorized_before_effects [OF p m 2, of example_platform example_world 0]
      unauthorized_before_effects [OF p m 3, of example_platform example_world 0]
      b
    by (simp add: createErrorResponse_def chat_request_def)
qed

text \<open>
  The body of the specification's example, cut inside its first line, gives the output
  of the uncut body, with the contents \<^verbatim>\<open>Hi\<close> and \<^verbatim>\<open> there\<close> in that order.
\<close>

theorem rechunking_witness:
  "pipeThrough example_platform (lit ''chatcmpl-1'') (JString model_name) 0
       [take 10 (bytes_of hi_there), drop 10 (bytes_of hi_there)]
     = pipeThrough example_platform (lit ''chatcmpl-1'') (JString model_name) 0
         [bytes_of hi_there]
   \<and> relay_frames new_decoder [] [take 10 (bytes_of hi_there), drop 10 (bytes_of hi_there)]
     = [lit event_hi, [], lit event_there, [], lit ''data: [DONE]'', []]
   \<and> delta_contents
        (pipeThrough example_platform (lit ''chatcmpl-1'') (JString model_name) 0
           [take 10 (bytes_of hi_there), drop 10 (bytes_of hi_there)])
     = [lit ''Hi'', lit '' there'']"
proof -
  have t: "map ucast (bytes_of hi_there) = lit hi_there"
    by (simp add: hi_there_def bytes_of_def lit_def)
  have a: "list_all (\<lambda>b. b \<le> 0x7F) (bytes_of hi_there)"
    by (simp add: hi_there_def bytes_of_def)
  have f: "relay_frames new_decoder [] [take 10 (bytes_of hi_there), drop 10 (bytes_of hi_there)]
     = [lit event_hi, [], lit event_there, [], lit ''data: [DONE]'', []]"
    using t a by (simp add: frames_ascii split_hi_there del: relay_frames.simps)
  have e: "relay_line P r m k [] = ([], k)" for P :: platform and r m k
    by (rule relay_line_skip) (simp add: empty_line)
  have d: "relay_line P r m k (lit ''data: [DONE]'') = ([], k)" for P :: platform and r m k
    by (rule relay_line_skip) (simp add: done_line)
  have c: "delta_contents
        (pipeThrough example_platform (lit ''chatcmpl-1'') (JString model_name) 0
           [take 10 (bytes_of hi_there), drop 10 (bytes_of hi_there)])
     = [lit ''Hi'', lit '' there'']"
    by (simp add: stream_content_frames f relay_hi relay_there e d content_chunk_def
          del: relay_frames.simps)
  from rechunking [of "[take 10 (bytes_of hi_there), drop 10 (bytes_of hi_there)]"
      example_platform "lit ''chatcmpl-1''" "JString model_name" 0]
  have "pipeThrough example_platform (lit ''chatcmpl-1'') (JString model_name) 0
       [take 10 (bytes_of hi_there), drop 10 (bytes_of hi_there)]
     = pipeThrough example_platform (lit ''chatcmpl-1'') (JString model_name) 0
         [bytes_of hi_there]"
    by simp
  then show ?thesis
    using f c by simp
qed

end
